theory Spec2Isabelle
  imports Main "HOL-Library.Monad_Syntax" "HOL-Library.AList"
begin

section \<open>JavaScript strings\<close>

text \<open>
  A JavaScript string is a sequence of UTF-16 code units; a code unit is modelled by its
  numeric value. \<open>js\<close> turns an ASCII literal into such a sequence.
\<close>

type_synonym jsstring = "nat list"

definition js :: "string \<Rightarrow> jsstring" where
  "js s = map of_char s"

text \<open>
  The code units that \<open>String.prototype.trim\<close> removes and that \<open>\s\<close> matches in a
  regular expression without the \<open>u\<close> flag: ECMAScript's WhiteSpace and LineTerminator.
\<close>

definition isWhiteSpace :: "nat \<Rightarrow> bool" where
  "isWhiteSpace c \<longleftrightarrow>
     c = 9 \<or> c = 10 \<or> c = 11 \<or> c = 12 \<or> c = 13 \<or> c = 32 \<or> c = 160 \<or> c = 5760 \<or>
     (8192 \<le> c \<and> c \<le> 8202) \<or> c = 8232 \<or> c = 8233 \<or> c = 8239 \<or> c = 8287 \<or>
     c = 12288 \<or> c = 65279"

definition isLineTerminator :: "nat \<Rightarrow> bool" where
  "isLineTerminator c \<longleftrightarrow> c = 10 \<or> c = 13 \<or> c = 8232 \<or> c = 8233"

definition trim :: "jsstring \<Rightarrow> jsstring" where
  "trim s = rev (dropWhile isWhiteSpace (rev (dropWhile isWhiteSpace s)))"

fun startsWith :: "jsstring \<Rightarrow> jsstring \<Rightarrow> bool" where
  "startsWith s [] = True"
| "startsWith [] (p # ps) = False"
| "startsWith (c # cs) (p # ps) = (c = p \<and> startsWith cs ps)"

text \<open>\<open>indexOf\<close> gives the first position of the pattern, or \<open>-1\<close>.\<close>

fun indexOfFrom :: "int \<Rightarrow> jsstring \<Rightarrow> jsstring \<Rightarrow> int" where
  "indexOfFrom i [] p = (if p = [] then i else -1)"
| "indexOfFrom i (c # cs) p = (if startsWith (c # cs) p then i else indexOfFrom (i + 1) cs p)"

definition indexOf :: "jsstring \<Rightarrow> jsstring \<Rightarrow> int" where
  "indexOf s p = indexOfFrom 0 s p"

definition includesStr :: "jsstring \<Rightarrow> jsstring \<Rightarrow> bool" where
  "includesStr s p \<longleftrightarrow> indexOf s p \<noteq> -1"

text \<open>
  \<open>substring(i, j)\<close> clamps both indices to \<open>0 .. length\<close> and swaps them when
  \<open>i > j\<close>; \<open>substring(j)\<close> runs to the end of the string.
\<close>

definition clampIndex :: "jsstring \<Rightarrow> int \<Rightarrow> nat" where
  "clampIndex s i = (if i < 0 then 0 else min (nat i) (length s))"

definition substring :: "jsstring \<Rightarrow> int \<Rightarrow> int \<Rightarrow> jsstring" where
  "substring s i j =
     (let a = clampIndex s i; b = clampIndex s j
      in take (max a b - min a b) (drop (min a b) s))"

definition substringFrom :: "jsstring \<Rightarrow> int \<Rightarrow> jsstring" where
  "substringFrom s j = drop (clampIndex s j) s"

text \<open>
  \<open>slice(b, e)\<close> counts a negative index from the end; \<open>at(0)\<close> is the first code
  unit, if there is one; \<open>a || b\<close> on strings takes \<open>a\<close> unless it is \<open>null\<close>,
  \<open>undefined\<close> or empty.
\<close>

definition sliceIndex :: "jsstring \<Rightarrow> int \<Rightarrow> nat" where
  "sliceIndex s k = (if k < 0 then nat (max (int (length s) + k) 0) else min (nat k) (length s))"

definition slice :: "jsstring \<Rightarrow> int \<Rightarrow> int \<Rightarrow> jsstring" where
  "slice s b e = take (sliceIndex s e - sliceIndex s b) (drop (sliceIndex s b) s)"

definition sliceFrom :: "jsstring \<Rightarrow> int \<Rightarrow> jsstring" where
  "sliceFrom s b = drop (sliceIndex s b) s"

fun truthy :: "jsstring option \<Rightarrow> bool" where
  "truthy None = False"
| "truthy (Some s) = (s \<noteq> [])"

definition orElse :: "jsstring option \<Rightarrow> jsstring \<Rightarrow> jsstring" where
  "orElse a b = (case a of Some s \<Rightarrow> if s \<noteq> [] then s else b | None \<Rightarrow> b)"

text \<open>\<open>Array.prototype.join\<close>.\<close>

fun join :: "jsstring \<Rightarrow> jsstring list \<Rightarrow> jsstring" where
  "join sep [] = []"
| "join sep [x] = x"
| "join sep (x # y # ys) = x @ sep @ join sep (y # ys)"

section \<open>Regular expressions\<close>

text \<open>
  The fragment of ECMAScript regular expressions that the source uses: character classes,
  literals, sequence, alternation, the greedy quantifiers \<open>?\<close>, \<open>*\<close>, \<open>+\<close>, \<open>{n}\<close>, the lazy
  quantifiers \<open>*?\<close> and \<open>+?\<close>, one capturing group and positive lookahead.
  A matcher state is the input that is left and the text of group 1. \<open>rmatch r st\<close>
  lists the states in which a match of \<open>r\<close> from \<open>st\<close> can end, in the order in which the
  backtracking matcher tries them, so that the head of the list is the match it reports.
\<close>

type_synonym mstate = "jsstring \<times> jsstring option"

datatype regex =
    Atom "nat \<Rightarrow> bool"
  | Str jsstring
  | Cat "regex list"
  | Alt "regex list"
  | Opt regex
  | Star regex
  | Plus regex
  | LazyStar regex
  | LazyPlus regex
  | Rep nat regex
  | Group regex
  | Look regex

fun matchAtom :: "(nat \<Rightarrow> bool) \<Rightarrow> mstate \<Rightarrow> mstate list" where
  "matchAtom p ([], g) = []"
| "matchAtom p (c # cs, g) = (if p c then [(cs, g)] else [])"

fun matchStr :: "jsstring \<Rightarrow> mstate \<Rightarrow> mstate list" where
  "matchStr l (s, g) = (if startsWith s l then [(drop (length l) s, g)] else [])"

text \<open>An iteration of \<open>*\<close> or \<open>+\<close> that consumes nothing is not repeated.\<close>

function greedy :: "(mstate \<Rightarrow> mstate list) \<Rightarrow> mstate \<Rightarrow> mstate list" where
  "greedy f st =
     concat (map (greedy f) (filter (\<lambda>st'. length (fst st') < length (fst st)) (f st))) @ [st]"
  by pat_completeness auto
termination
  by (relation "measure (\<lambda>(f, st). length (fst st))") auto

function lazy :: "(mstate \<Rightarrow> mstate list) \<Rightarrow> mstate \<Rightarrow> mstate list" where
  "lazy f st =
     st # concat (map (lazy f) (filter (\<lambda>st'. length (fst st') < length (fst st)) (f st)))"
  by pat_completeness auto
termination
  by (relation "measure (\<lambda>(f, st). length (fst st))") auto

declare greedy.simps [simp del] lazy.simps [simp del]

fun repeatN :: "(mstate \<Rightarrow> mstate list) \<Rightarrow> nat \<Rightarrow> mstate \<Rightarrow> mstate list" where
  "repeatN f 0 st = [st]"
| "repeatN f (Suc n) st = concat (map (repeatN f n) (f st))"

fun inSeq :: "(mstate \<Rightarrow> mstate list) list \<Rightarrow> mstate \<Rightarrow> mstate list" where
  "inSeq [] st = [st]"
| "inSeq (f # fs) st = concat (map (inSeq fs) (f st))"

fun capture :: "mstate \<Rightarrow> mstate \<Rightarrow> mstate" where
  "capture (s, g) (s', g') = (s', Some (take (length s - length s') s))"

primrec rmatch :: "regex \<Rightarrow> mstate \<Rightarrow> mstate list" where
  "rmatch (Atom p) = matchAtom p"
| "rmatch (Str l) = matchStr l"
| "rmatch (Cat rs) = inSeq (map rmatch rs)"
| "rmatch (Alt rs) = (\<lambda>st. concat (map (\<lambda>f. f st) (map rmatch rs)))"
| "rmatch (Opt r) = (\<lambda>st. rmatch r st @ [st])"
| "rmatch (Star r) = greedy (rmatch r)"
| "rmatch (Plus r) = (\<lambda>st. concat (map (greedy (rmatch r)) (rmatch r st)))"
| "rmatch (LazyStar r) = lazy (rmatch r)"
| "rmatch (LazyPlus r) = (\<lambda>st. concat (map (lazy (rmatch r)) (rmatch r st)))"
| "rmatch (Rep n r) = repeatN (rmatch r) n"
| "rmatch (Group r) = (\<lambda>st. map (capture st) (rmatch r st))"
| "rmatch (Look r) = (\<lambda>st. if rmatch r st = [] then [] else [st])"

text \<open>
  \<open>RegExp.prototype.exec\<close> from the start of a string: the leftmost position at which
  the expression matches, with the text before the match, the match, group 1 and the
  text after the match.
\<close>

record regexMatch =
  m_before :: jsstring
  m_text :: jsstring
  m_group1 :: "jsstring option"
  m_after :: jsstring

fun found :: "jsstring \<Rightarrow> jsstring \<Rightarrow> mstate \<Rightarrow> regexMatch" where
  "found pre s (s', g) =
     \<lparr>m_before = pre, m_text = take (length s - length s') s, m_group1 = g, m_after = s'\<rparr>"

fun search :: "regex \<Rightarrow> jsstring \<Rightarrow> jsstring \<Rightarrow> regexMatch option" where
  "search r pre [] =
     (case rmatch r ([], None) of [] \<Rightarrow> None | st # _ \<Rightarrow> Some (found pre [] st))"
| "search r pre (c # cs) =
     (case rmatch r (c # cs, None) of
        [] \<Rightarrow> search r (pre @ [c]) cs
      | st # _ \<Rightarrow> Some (found pre (c # cs) st))"

declare search.simps [simp del]

definition regexExec :: "regex \<Rightarrow> jsstring \<Rightarrow> regexMatch option" where
  "regexExec r s = search r [] s"

definition regexTest :: "regex \<Rightarrow> jsstring \<Rightarrow> bool" where
  "regexTest r s \<longleftrightarrow> regexExec r s \<noteq> None"

text \<open>
  \<open>String.prototype.replace\<close> with a global expression and a replacer function called
  with the match and group 1. After an empty match the next code unit is copied and the
  search goes on behind it. The text after a match is shorter than the text searched;
  the comparisons of lengths make that visible to the termination proof.
\<close>

function replaceAll :: "regex \<Rightarrow> (jsstring \<Rightarrow> jsstring option \<Rightarrow> jsstring) \<Rightarrow> jsstring \<Rightarrow> jsstring" where
  "replaceAll r f s =
     (case regexExec r s of
        None \<Rightarrow> s
      | Some m \<Rightarrow>
          m_before m @ f (m_text m) (m_group1 m) @
          (if m_text m = [] then
             (case m_after m of
                [] \<Rightarrow> []
              | c # cs \<Rightarrow> c # (if length cs < length s then replaceAll r f cs else cs))
           else if length (m_after m) < length s then replaceAll r f (m_after m)
           else m_after m))"
  by pat_completeness auto
termination
  by (relation "measure (\<lambda>(r, f, s). length s)") auto

declare replaceAll.simps [simp del]

text \<open>Character classes.\<close>

definition lit :: "char \<Rightarrow> regex" where
  "lit c = Atom (\<lambda>x. x = of_char c)"

definition anyChar :: regex where
  "anyChar = Atom (\<lambda>c. \<not> isLineTerminator c)"

definition nonSpaceChar :: regex where
  "nonSpaceChar = Atom (\<lambda>c. \<not> isWhiteSpace c)"

definition spaceChar :: regex where
  "spaceChar = Atom isWhiteSpace"

section \<open>Recognising a YouTube link\<close>

text \<open>The class \<open>[a-zA-Z0-9_-]\<close>.\<close>

definition videoIdChar :: regex where
  "videoIdChar =
     Atom (\<lambda>c. (97 \<le> c \<and> c \<le> 122) \<or> (65 \<le> c \<and> c \<le> 90) \<or> (48 \<le> c \<and> c \<le> 57) \<or> c = 95 \<or> c = 45)"

text \<open>
  \<^verbatim>\<open>/(?:https?:\/\/)?(?:www\.)?(?:youtube\.com\/(?:[^\/\n\s]+\/\S+\/|(?:v|e(?:mbed)?)\/|.*[?&]v=)|youtu\.be\/)([a-zA-Z0-9_-]{11})/\<close>
\<close>

definition youtubeRegex :: regex where
  "youtubeRegex =
     Cat [Opt (Cat [Str (js ''http''), Opt (lit CHR ''s''), Str (js ''://'')]),
          Opt (Str (js ''www.'')),
          Alt [Cat [Str (js ''youtube.com/''),
                    Alt [Cat [Plus (Atom (\<lambda>c. \<not> (c = 47 \<or> c = 10 \<or> isWhiteSpace c))), lit CHR ''/'',
                              Plus nonSpaceChar, lit CHR ''/''],
                         Cat [Alt [lit CHR ''v'', Cat [lit CHR ''e'', Opt (Str (js ''mbed''))]],
                              lit CHR ''/''],
                         Cat [Star anyChar, Atom (\<lambda>c. c = 63 \<or> c = 38), Str (js ''v='')]]],
               Str (js ''youtu.be/'')],
          Group (Rep 11 videoIdChar)]"

definition isYoutubeVideo :: "jsstring \<Rightarrow> bool" where
  "isYoutubeVideo url \<longleftrightarrow> regexTest youtubeRegex url"

text \<open>
  \<open>youtubeLinkToIframe\<close>: the markup of the player for a recognised link, with the video
  id taken from group 1 of the match, or \<open>null\<close>.
\<close>

definition youtubeLinkToIframe :: "jsstring \<Rightarrow> bool \<Rightarrow> jsstring option \<Rightarrow> jsstring option" where
  \<open>youtubeLinkToIframe youtubeUrl lite title =
     (case regexExec youtubeRegex youtubeUrl of
        None \<Rightarrow> None
      | Some m \<Rightarrow>
          (let videoId = (case m_group1 m of Some v \<Rightarrow> v | None \<Rightarrow> js ''undefined'');
               actualTitle = (case title of Some t \<Rightarrow> t | None \<Rightarrow> js ''Youtube Player'')
           in if lite then
                Some (js ''<lite-youtube class="youtube-embed" videoid="'' @ videoId @ js ''" title="'' @
                  actualTitle @ js ''" style="background-image: url(\'https://i.ytimg.com/vi/'' @ videoId @
                  js ''/hqdefault.jpg\');">\<newline>        <a href="https://youtube.com/watch?v='' @ videoId @
                  js ''" class="lty-playbtn" title="'' @ actualTitle @
                  js ''">\<newline>          <span class="lyt-visually-hidden">'' @ actualTitle @
                  js ''</span>\<newline>        </a>\<newline>      </lite-youtube>'')
              else
                Some (js ''<iframe width="560" height="315" src="https://www.youtube-nocookie.com/embed/'' @
                  videoId @ js ''" class="youtube-embed" title="'' @ actualTitle @
                  js ''" frameborder="0" allow="accelerometer; autoplay; clipboard-write; encrypted-media; gyroscope; picture-in-picture; web-share" referrerpolicy="strict-origin-when-cross-origin" loading="lazy" allowfullscreen></iframe>\<newline>'')))\<close>

definition isLocalPath :: "jsstring \<Rightarrow> bool" where
  "isLocalPath src \<longleftrightarrow> \<not> startsWith src (js ''http://'') \<and> \<not> startsWith src (js ''https://'')"

section \<open>Options, renderer state and collaborators\<close>

datatype YoutubeHandling = YtLite | YtLink | YtEmbed

text \<open>
  The fields of the class \<open>Renderer\<close>. The private slug allocator is present or absent;
  its state is the list of the slugs it has handed out.
\<close>

record Renderer =
  r_allowMath :: bool
  r_noLinks :: bool
  ytEmbed :: YoutubeHandling
  r_baseUrl :: "jsstring option"
  slugger :: "jsstring list option"
  mermaidImport :: bool
  lightYTEmbedImport :: bool
  mermaidEnabled :: bool
  alertsEnabled :: bool
  r_svgCheckboxes :: bool

datatype AllowedAttribute = AttrName jsstring | AttrValues jsstring "jsstring list"

datatype ClassPattern = ClassName jsstring | ClassRegExp regex

datatype AllowedClasses = ClassesFlag bool | ClassesList "ClassPattern list"

text \<open>An object with string keys is a list of keys and values, looked up by \<open>map_of\<close>.\<close>

type_synonym 'v jsobject = "(jsstring \<times> 'v) list"

text \<open>\<open>RenderOptions\<close>: every field is optional.\<close>

record RenderOptions =
  baseUrl :: "jsstring option"
  mediaBaseUrl :: "jsstring option"
  inline :: "bool option"
  allowIframes :: "bool option"
  allowMath :: "bool option"
  disableHtmlSanitization :: "bool option"
  renderer :: "Renderer option"
  allowedClasses :: "AllowedClasses jsobject option"
  allowedTags :: "jsstring list option"
  allowedAttributes :: "AllowedAttribute list jsobject option"
  breaks :: "bool option"
  noLinks :: "bool option"
  youtubeHandling :: "YoutubeHandling option"
  githubSlugger :: "bool option"
  mermaid :: "bool option"
  alerts :: "bool option"
  svgCheckboxes :: "bool option"

text \<open>
  The attributes of an element, as the sanitizer hands them to a tag transformer, and the
  options of a call to the sanitizer; an option that a call leaves out is \<open>None\<close>.
\<close>

type_synonym attributes = "jsstring \<rightharpoonup> jsstring"

record SanitizeOptions =
  transformTags :: "(jsstring \<Rightarrow> attributes \<Rightarrow> jsstring \<times> attributes) jsobject option"
  s_allowedTags :: "jsstring list option"
  s_allowedAttributes :: "AllowedAttribute list jsobject option"
  s_allowedClasses :: "AllowedClasses jsobject option"
  allowProtocolRelative :: "bool option"
  lowerCaseAttributeNames :: "bool option"

datatype Tokenizer = DefaultTokenizer | StripTokenizer

record MarkedOptions =
  o_baseUrl :: "jsstring option"
  o_breaks :: bool
  gfm :: bool
  mangle :: bool
  o_renderer :: Renderer
  async :: bool
  tokenizer :: Tokenizer

text \<open>
  The token tree of the Markdown lexer, with the fields that the section splitter reads:
  \<open>raw\<close>, \<open>text\<close>, \<open>lang\<close>, \<open>title\<close>, \<open>depth\<close>, the child \<open>tokens\<close>, the \<open>header\<close> cells
  and \<open>rows\<close> of a table (a cell is its \<open>tokens\<close>) and the \<open>items\<close> of a list.
  \<open>Generic\<close> stands for a token of any other type, which it names.
\<close>

datatype token =
    Space jsstring
  | Code "jsstring option" jsstring
  | Heading nat "token list"
  | Table "token list list" "token list list list"
  | Hr
  | Blockquote "token list"
  | ListTok "token list"
  | ListItem "token list"
  | Paragraph "token list"
  | Html jsstring
  | Text jsstring "token list option"
  | Def
  | Escape
  | Link "token list"
  | Image "jsstring option" jsstring
  | Strong "token list"
  | Em "token list"
  | Codespan jsstring
  | Br
  | Del "token list"
  | Generic jsstring "token list option"

text \<open>
  What the source calls and the repository does not contain: the libraries it imports, the
  built-in \<open>URL\<close> constructor and the built-in case conversions of strings (their Unicode
  tables). A call that can throw returns \<open>None\<close> when it does. Every theorem below
  that mentions an environment holds for each one, the real one included.
  \<^item> \<open>renderToString tex displayMode\<close> is KaTeX's typesetter;
  \<^item> \<open>newURL url base\<close> is \<open>new URL(url, base).href\<close>;
  \<^item> \<open>markedParse useAlerts inline markdown options\<close> is the configured Markdown parser,
    which gives the HTML and the renderer as the rendering rules have left it;
  \<^item> \<open>lexer\<close> is the Markdown lexer; \<open>superBlockquote\<close> is the blockquote rule that
    \<open>Renderer\<close> inherits;
  \<^item> \<open>defaultAllowedTags\<close> and \<open>defaultAllowedAttributes\<close> are the sanitizer's
    \<open>defaults\<close>, \<open>KATEX_CLASSES\<close> is the list of the style module;
  \<^item> \<open>minify\<close> is the source's own compaction of generated markup, whose regular
    expressions are outside the fragment modelled here.
\<close>

record env =
  emojify :: "jsstring \<Rightarrow> jsstring"
  renderToString :: "jsstring \<Rightarrow> bool \<Rightarrow> jsstring option"
  newURL :: "jsstring \<Rightarrow> jsstring \<Rightarrow> jsstring option"
  contentType :: "jsstring \<Rightarrow> jsstring option"
  extname :: "jsstring \<Rightarrow> jsstring"
  sanitizeHtml :: "jsstring \<Rightarrow> SanitizeOptions \<Rightarrow> jsstring"
  markedParse :: "bool \<Rightarrow> bool \<Rightarrow> jsstring \<Rightarrow> MarkedOptions \<Rightarrow> jsstring \<times> Renderer"
  lexer :: "jsstring \<Rightarrow> MarkedOptions \<Rightarrow> token list"
  superBlockquote :: "jsstring \<Rightarrow> jsstring"
  toLowerCase :: "jsstring \<Rightarrow> jsstring"
  toUpperCase :: "jsstring \<Rightarrow> jsstring"
  defaultAllowedTags :: "jsstring list"
  defaultAllowedAttributes :: "AllowedAttribute list jsobject"
  KATEX_CLASSES :: "jsstring list"
  minify :: "jsstring \<Rightarrow> jsstring"

section \<open>The rendering rules\<close>

text \<open>The constructor of \<open>Renderer\<close>.\<close>

definition newRenderer :: "RenderOptions \<Rightarrow> Renderer" where
  "newRenderer options =
     \<lparr>r_allowMath = (case allowMath options of Some b \<Rightarrow> b | None \<Rightarrow> False),
      r_noLinks = (case noLinks options of Some b \<Rightarrow> b | None \<Rightarrow> False),
      ytEmbed = (case youtubeHandling options of Some h \<Rightarrow> h | None \<Rightarrow> YtLite),
      r_baseUrl = baseUrl options,
      slugger = (if githubSlugger options = Some True \<or> githubSlugger options = None then Some [] else None),
      mermaidImport = False,
      lightYTEmbedImport = False,
      mermaidEnabled = (case mermaid options of Some b \<Rightarrow> b | None \<Rightarrow> False),
      alertsEnabled = (case alerts options of Some b \<Rightarrow> b | None \<Rightarrow> True),
      r_svgCheckboxes = (case svgCheckboxes options of Some b \<Rightarrow> b | None \<Rightarrow> True)\<rparr>"

text \<open>
  \<open>Renderer.image\<close>. The rule returns the markup and the renderer, whose flag for the
  lightweight player it may set. \<open>plainImage\<close> is the end of the rule, reached when the
  target is not a video link.
\<close>

definition plainImage :: "env \<Rightarrow> jsstring \<Rightarrow> jsstring option \<Rightarrow> jsstring \<Rightarrow> jsstring" where
  \<open>plainImage e src title alt =
     (if isLocalPath src \<and>
         includesStr (orElse (contentType e (extname e src)) []) (js ''video'')
      then js ''<video src="'' @ src @ js ''" alt="'' @ alt @ js ''" title="'' @
           (case title of Some t \<Rightarrow> t | None \<Rightarrow> []) @ js ''" controls />''
      else js ''<img src="'' @ src @ js ''" alt="'' @ alt @ js ''" title="'' @
           (case title of Some t \<Rightarrow> t | None \<Rightarrow> []) @ js ''" />'')\<close>

definition image :: "env \<Rightarrow> Renderer \<Rightarrow> jsstring \<Rightarrow> jsstring option \<Rightarrow> jsstring \<Rightarrow> jsstring \<times> Renderer" where
  \<open>image e this src title alt =
     (let youtube = isYoutubeVideo src in
      if youtube \<and> ytEmbed this = YtLink then
        (js ''<a href="'' @ src @ js ''">'' @ orElse (Some (orElse title alt)) (js ''Youtube video'') @
         js ''</a>'', this)
      else
        (case (if youtube
               then youtubeLinkToIframe src (ytEmbed this = YtLite) (Some (orElse title alt))
               else None) of
           Some youtubeIframe \<Rightarrow>
             if youtubeIframe \<noteq> []
             then (youtubeIframe, this\<lparr>lightYTEmbedImport := (ytEmbed this = YtLite)\<rparr>)
             else (plainImage e src title alt, this)
         | None \<Rightarrow> (plainImage e src title alt, this)))\<close>

text \<open>
  \<open>Renderer.link\<close>: the resolution against the base URL is tried and its failure caught.
  \<open>titleAttribute\<close> is the \<open>title\<close> attribute of the anchor, absent without a title.
\<close>

definition titleAttribute :: "jsstring option \<Rightarrow> jsstring" where
  \<open>titleAttribute title =
     (case title of
        Some t \<Rightarrow> if t \<noteq> [] then js '' title="'' @ t @ js ''"'' else []
      | None \<Rightarrow> [])\<close>

definition link :: "env \<Rightarrow> Renderer \<Rightarrow> jsstring \<Rightarrow> jsstring option \<Rightarrow> jsstring \<Rightarrow> jsstring" where
  \<open>link e this href title txt =
     (if r_noLinks this then txt
      else
        (let titleAttr = titleAttribute title
         in if startsWith href (js ''#'')
            then js ''<a href="'' @ href @ js ''"'' @ titleAttr @ js ''>'' @ txt @ js ''</a>''
            else
              (let href' = (case r_baseUrl this of
                              Some base \<Rightarrow>
                                if base \<noteq> []
                                then (case newURL e href base of Some resolved \<Rightarrow> resolved | None \<Rightarrow> href)
                                else href
                            | None \<Rightarrow> href)
               in js ''<a href="'' @ href' @ js ''"'' @ titleAttr @ js '' rel="noopener noreferrer">'' @
                  txt @ js ''</a>'')))\<close>

text \<open>Alerts: \<open>cutStr\<close>, the list \<open>alerts\<close>, \<open>detectAlert\<close>, \<open>convertAlert\<close> and
  \<open>Renderer.blockquote\<close>.\<close>

definition cutStr :: "jsstring \<Rightarrow> int \<Rightarrow> int \<Rightarrow> jsstring" where
  "cutStr str i j = trim (substring str 0 i @ substringFrom str j)"

definition alerts_list :: "jsstring list" where
  "alerts_list = [js ''[!note]'', js ''[!tip]'', js ''[!important]'', js ''[!warning]'', js ''[!caution]'']"

text \<open>\<open>forEach\<close> visits the list in order; a later marker that is found replaces an earlier one.\<close>

definition detectAlert :: "env \<Rightarrow> jsstring \<Rightarrow> jsstring option" where
  "detectAlert e txt =
     fold (\<lambda>alert result. if includesStr (toLowerCase e txt) alert then Some alert else result)
       alerts_list None"

definition convertAlert :: "env \<Rightarrow> jsstring \<Rightarrow> jsstring" where
  "convertAlert e alert =
     (let alertText = slice alert 2 (int (length alert) - 1)
      in (case alertText of [] \<Rightarrow> js ''undefined'' | c # _ \<Rightarrow> toUpperCase e [c]) @
         toLowerCase e (sliceFrom alertText 1))"

definition blockquote :: "env \<Rightarrow> Renderer \<Rightarrow> jsstring \<Rightarrow> jsstring" where
  \<open>blockquote e this txt =
     (case detectAlert e txt of
        Some alertType \<Rightarrow>
          if \<not> alertsEnabled this \<and> alertType \<noteq> []
          then js ''<p><b>'' @ convertAlert e alertType @ js '': </b></p>'' @
               cutStr txt (indexOf (toLowerCase e txt) alertType)
                 (indexOf (toLowerCase e txt) alertType + int (length alertType)) @
               js ''</p>''
          else superBlockquote e txt
      | None \<Rightarrow> superBlockquote e txt)\<close>

section \<open>The math preprocessor\<close>

text \<open>\<^verbatim>\<open>/\$\$\s(.+?)\s\$\$/g\<close> and \<^verbatim>\<open>/\s\$((?=\S).*?(?=\S))\$/g\<close>.\<close>

definition BLOCK_MATH_REGEXP :: regex where
  "BLOCK_MATH_REGEXP =
     Cat [Str (js ''$$''), spaceChar, Group (LazyPlus anyChar), spaceChar, Str (js ''$$'')]"

definition INLINE_MATH_REGEXP :: regex where
  "INLINE_MATH_REGEXP =
     Cat [spaceChar, lit CHR ''$'',
          Group (Cat [Look nonSpaceChar, LazyStar anyChar, Look nonSpaceChar]),
          lit CHR ''$'']"

text \<open>
  The two replacer functions of \<open>mathify\<close>: the typeset markup, or the match itself when
  the typesetter throws. Group 1 takes part in every match of either expression.
\<close>

definition blockMath :: "env \<Rightarrow> jsstring \<Rightarrow> jsstring option \<Rightarrow> jsstring" where
  "blockMath e match p1 =
     (case p1 of
        None \<Rightarrow> match
      | Some p \<Rightarrow> (case renderToString e (trim p) True of Some html \<Rightarrow> html | None \<Rightarrow> match))"

definition inlineMath :: "env \<Rightarrow> jsstring \<Rightarrow> jsstring option \<Rightarrow> jsstring" where
  "inlineMath e match p1 =
     (case p1 of
        None \<Rightarrow> match
      | Some p \<Rightarrow> (case renderToString e p False of Some html \<Rightarrow> js '' '' @ html | None \<Rightarrow> match))"

definition mathify :: "env \<Rightarrow> jsstring \<Rightarrow> jsstring" where
  "mathify e markdown =
     replaceAll INLINE_MATH_REGEXP (inlineMath e)
       (replaceAll BLOCK_MATH_REGEXP (blockMath e) markdown)"

section \<open>The render pipeline\<close>

definition getOpts :: "RenderOptions \<Rightarrow> MarkedOptions" where
  "getOpts opts =
     \<lparr>o_baseUrl = baseUrl opts,
      o_breaks = (case breaks opts of Some b \<Rightarrow> b | None \<Rightarrow> False),
      gfm = True,
      mangle = False,
      o_renderer = (case renderer opts of Some r \<Rightarrow> r | None \<Rightarrow> newRenderer opts),
      async = False,
      tokenizer = DefaultTokenizer\<rparr>"

text \<open>
  Object spread \<open>{...a, ...b}\<close>: the entries of \<open>b\<close> are written over those of \<open>a\<close>, key
  by key.
\<close>

definition objSpread :: "'v jsobject \<Rightarrow> 'v jsobject \<Rightarrow> 'v jsobject" where
  "objSpread a b = fold (\<lambda>kv obj. AList.update (fst kv) (snd kv) obj) b a"

text \<open>
  Reading \<open>merged[tag]\<close> finds an own property of the object or, failing that, one that
  the object inherits from \<open>Object.prototype\<close>. These are the names of the inherited
  ones; their values are functions, or an object for \<^verbatim>\<open>__proto__\<close>, all of them truthy
  and none of them iterable.
\<close>

definition objectPrototypeKeys :: "jsstring list" where
  "objectPrototypeKeys =
     map js [''constructor'', ''hasOwnProperty'', ''isPrototypeOf'', ''propertyIsEnumerable'',
             ''toLocaleString'', ''toString'', ''valueOf'', ''__proto__'', ''__defineGetter__'',
             ''__defineSetter__'', ''__lookupGetter__'', ''__lookupSetter__'']"

datatype error = TypeError

text \<open>
  \<open>mergeAttributes\<close>: for each tag of \<open>customs\<close>, its list is put behind the list the
  merged object has for the tag so far, \<^verbatim>\<open>[...(merged[tag] || []), ...customs[tag]]\<close>.
  When the tag is not a key of the merged object and names a member of
  \<open>Object.prototype\<close>, the spread of that member throws a \<open>TypeError\<close>.
  \<open>mergeInto\<close> is the loop over the tags of \<open>customs\<close>.
\<close>

fun mergeInto ::
  "AllowedAttribute list jsobject \<Rightarrow> AllowedAttribute list jsobject \<Rightarrow>
   error + AllowedAttribute list jsobject" where
  "mergeInto merged [] = Inr merged"
| "mergeInto merged ((tag, attrs) # customs) =
     (case map_of merged tag of
        Some xs \<Rightarrow> mergeInto (AList.update tag (xs @ attrs) merged) customs
      | None \<Rightarrow>
          if tag \<in> set objectPrototypeKeys then Inl TypeError
          else mergeInto (AList.update tag attrs merged) customs)"

definition mergeAttributes ::
  "AllowedAttribute list jsobject \<Rightarrow> AllowedAttribute list jsobject \<Rightarrow>
   error + AllowedAttribute list jsobject" where
  "mergeAttributes defaults customs = mergeInto defaults customs"

text \<open>
  \<open>transformMedia\<close>, the tag transformer for \<open>img\<close> and \<open>video\<close>; it reads the options
  after \<open>render\<close> has filled in the media base URL.
\<close>

definition transformMedia :: "env \<Rightarrow> RenderOptions \<Rightarrow> jsstring \<Rightarrow> attributes \<Rightarrow> jsstring \<times> attributes" where
  "transformMedia e opts tagName attribs =
     (case mediaBaseUrl opts of
        None \<Rightarrow> (tagName, attribs)
      | Some base \<Rightarrow>
          (case attribs (js ''src'') of
             None \<Rightarrow> (tagName, attribs)
           | Some src \<Rightarrow>
               if base \<noteq> [] \<and> src \<noteq> [] then
                 (case newURL e src base of
                    Some href \<Rightarrow> (tagName, attribs(js ''src'' \<mapsto> href))
                  | None \<Rightarrow> (tagName, attribs(js ''src'' := None)))
               else (tagName, attribs)))"

definition renderAllowedTags :: "env \<Rightarrow> RenderOptions \<Rightarrow> jsstring list" where
  "renderAllowedTags e opts =
     defaultAllowedTags e @
     map js [''img'', ''video'', ''svg'', ''path'', ''circle'', ''figure'', ''figcaption'', ''del'',
             ''details'', ''summary'', ''input''] @
     (if allowIframes opts = Some True then [js ''iframe''] else []) @
     (if allowMath opts = Some True
      then map js [''math'', ''maction'', ''annotation'', ''annotation-xml'', ''menclose'', ''merror'',
                   ''mfenced'', ''mfrac'', ''mi'', ''mmultiscripts'', ''mn'', ''mo'', ''mover'',
                   ''mpadded'', ''mphantom'', ''mprescripts'', ''mroot'', ''mrow'', ''ms'',
                   ''semantics'', ''mspace'', ''msqrt'', ''mstyle'', ''msub'', ''msup'', ''msubsup'',
                   ''mtable'', ''mtd'', ''mtext'', ''mtr'']
      else [])"

definition classNames :: "string list \<Rightarrow> ClassPattern list" where
  "classNames xs = map (\<lambda>x. ClassName (js x)) xs"

definition renderAllowedClasses :: "env \<Rightarrow> RenderOptions \<Rightarrow> AllowedClasses jsobject" where
  "renderAllowedClasses e opts =
     [(js ''div'', ClassesList (classNames
         [''highlight'', ''highlight-source-*'', ''notranslate'', ''markdown-alert'',
          ''markdown-alert-*'', ''markdown-code-title'', ''mermaid-code'', ''mermaid-container''])),
      (js ''span'', ClassesList (classNames
         [''token'', ''keyword'', ''operator'', ''number'', ''boolean'', ''function'', ''string'',
          ''comment'', ''class-name'', ''regex'', ''regex-delimiter'', ''tag'', ''attr-name'',
          ''punctuation'', ''script-punctuation'', ''script'', ''plain-text'', ''property'',
          ''prefix'', ''line'', ''deleted'', ''inserted'', ''key'', ''atrule''] @
         (if allowMath opts = Some True then map ClassName (KATEX_CLASSES e) else []))),
      (js ''a'', ClassesList (classNames [''anchor''])),
      (js ''p'', ClassesList (classNames [''markdown-alert-title''])),
      (js ''svg'', ClassesList (classNames [''octicon'', ''octicon-alert'', ''octicon-link''])),
      (js ''h2'', ClassesList (classNames [''sr-only''])),
      (js ''section'', ClassesList (classNames [''footnotes'']))]"

definition attrNames :: "string list \<Rightarrow> AllowedAttribute list" where
  "attrNames xs = map (\<lambda>x. AttrName (js x)) xs"

definition renderAllowedAttributes :: "env \<Rightarrow> RenderOptions \<Rightarrow> AllowedAttribute list jsobject" where
  "renderAllowedAttributes e opts =
     objSpread (defaultAllowedAttributes e)
       [(js ''img'', attrNames [''src'', ''alt'', ''height'', ''width'', ''align'', ''title'']),
        (js ''video'', attrNames [''src'', ''alt'', ''height'', ''width'', ''autoplay'', ''muted'',
           ''loop'', ''playsinline'', ''poster'', ''controls'', ''title'']),
        (js ''a'', attrNames [''id'', ''aria-hidden'', ''href'', ''tabindex'', ''rel'', ''target'',
           ''title'', ''data-footnote-ref'', ''data-footnote-backref'', ''aria-label'',
           ''aria-describedby'']),
        (js ''svg'', attrNames [''viewBox'', ''width'', ''height'', ''aria-hidden'', ''background'']),
        (js ''path'', attrNames [''fill-rule'', ''d'']),
        (js ''circle'', attrNames [''cx'', ''cy'', ''r'', ''stroke'', ''stroke-width'', ''fill'', ''alpha'']),
        (js ''span'', if allowMath opts = Some True then attrNames [''aria-hidden'', ''style''] else []),
        (js ''h1'', attrNames [''id'']),
        (js ''h2'', attrNames [''id'']),
        (js ''h3'', attrNames [''id'']),
        (js ''h4'', attrNames [''id'']),
        (js ''h5'', attrNames [''id'']),
        (js ''h6'', attrNames [''id'']),
        (js ''li'', attrNames [''id'']),
        (js ''td'', attrNames [''colspan'', ''rowspan'', ''align'', ''width'']),
        (js ''iframe'', attrNames [''src'', ''width'', ''height'']),
        (js ''math'', attrNames [''xmlns'']),
        (js ''annotation'', attrNames [''encoding'']),
        (js ''details'', attrNames [''open'']),
        (js ''section'', attrNames [''data-footnotes'']),
        (js ''input'', attrNames [''checked'', ''disabled''] @ [AttrValues (js ''type'') [js ''checkbox'']])]"

text \<open>
  The options that \<open>render\<close> hands to the sanitizer; \<open>merged\<close> is what the call of
  \<open>mergeAttributes\<close> in the object literal has returned.
\<close>

definition sanitizeConfig ::
  "env \<Rightarrow> RenderOptions \<Rightarrow> AllowedAttribute list jsobject \<Rightarrow> SanitizeOptions" where
  "sanitizeConfig e opts merged =
     \<lparr>transformTags = Some [(js ''img'', transformMedia e opts), (js ''video'', transformMedia e opts)],
      s_allowedTags =
        Some (renderAllowedTags e opts @ (case allowedTags opts of Some ts \<Rightarrow> ts | None \<Rightarrow> [])),
      s_allowedAttributes = Some merged,
      s_allowedClasses =
        Some (objSpread (renderAllowedClasses e opts)
                (case allowedClasses opts of Some c \<Rightarrow> c | None \<Rightarrow> [])),
      allowProtocolRelative = Some False,
      lowerCaseAttributeNames = Some False\<rparr>"

definition mermaidLoader :: jsstring where
  \<open>mermaidLoader = js (
''\<newline>      <script type="module">\<newline>'' @
''        import mermaid from "https://cdn.jsdelivr.net/npm/mermaid/dist/mermaid.esm.min.mjs";\<newline>'' @
''        mermaid.initialize({ startOnLoad: false, theme: "neutral" });\<newline>'' @
''\<newline>'' @
''        const elements = document.querySelectorAll(".mermaid-container");\<newline>'' @
''        elements.forEach((element) => {\<newline>'' @
''          const code = element.querySelector(".mermaid-code")?.textContent || "";\<newline>'' @
''          if (code) {\<newline>'' @
''            element.innerHTML = `<div class="mermaid">${code}</div>`;\<newline>'' @
''          }\<newline>'' @
''        });\<newline>'' @
''\<newline>'' @
''        await mermaid.run();\<newline>'' @
''      </script>\<newline>'' @
''      <style>\<newline>'' @
''        .mermaid-code {\<newline>'' @
''          display: none;\<newline>'' @
''        }\<newline>'' @
''      </style>\<newline>'' @
''    '')\<close>

definition liteYoutubeLoader :: jsstring where
  \<open>liteYoutubeLoader =
     js ''<script defer src="https://cdn.jsdelivr.net/npm/lite-youtube-embed@0.3.3/src/lite-yt-embed.js"></script>'' @
     js ''<link rel="stylesheet" href="https://cdn.jsdelivr.net/npm/lite-youtube-embed@0.3.3/src/lite-yt-embed.css" />''\<close>

text \<open>
  \<open>render\<close> gives three things: the markup, or the error that the call throws; the
  caller's options object as the call leaves it; and the renderer object that was used, as
  the rendering rules leave it.

  The options object refers to its renderer, and the record of the options shows the
  renderer in the state it is in. \<open>getOpts\<close> hands a renderer of the caller's on as it
  is, so the rules run on the caller's object and write to it, and the options show it
  afterwards as the rules have left it. A renderer that \<open>getOpts\<close> makes is not written
  into the options. The first statement of the source,
  \<^verbatim>\<open>opts.mediaBaseUrl ??= opts.baseUrl\<close>, writes to the caller's object as well. Both
  writes are done when \<open>mergeAttributes\<close> throws, which is in the last statement.
\<close>

definition render ::
  "env \<Rightarrow> jsstring \<Rightarrow> RenderOptions \<Rightarrow> (error + jsstring) \<times> RenderOptions \<times> Renderer" where
  "render e markdown opts0 =
     (let opts = opts0\<lparr>mediaBaseUrl :=
                   (case mediaBaseUrl opts0 of Some u \<Rightarrow> Some u | None \<Rightarrow> baseUrl opts0)\<rparr>;
          markdown1 = emojify e markdown;
          markdown2 = (if allowMath opts = Some True then mathify e markdown1 else markdown1);
          marked_opts = getOpts opts;
          parsed = markedParse e (alerts opts \<noteq> Some False) (inline opts = Some True) markdown2 marked_opts;
          html = fst parsed;
          rendererAfter = snd parsed;
          optsAfter = (case renderer opts of
                         Some r \<Rightarrow> opts\<lparr>renderer := Some rendererAfter\<rparr>
                       | None \<Rightarrow> opts);
          additionalCode =
            (if mermaidImport rendererAfter then minify e mermaidLoader else []) @
            (if lightYTEmbedImport rendererAfter then liteYoutubeLoader else [])
      in if disableHtmlSanitization optsAfter = Some True
         then (Inr (additionalCode @ html), optsAfter, rendererAfter)
         else
           (case mergeAttributes (renderAllowedAttributes e optsAfter)
                   (case allowedAttributes optsAfter of Some a \<Rightarrow> a | None \<Rightarrow> []) of
              Inl err \<Rightarrow> (Inl err, optsAfter, rendererAfter)
            | Inr merged \<Rightarrow>
                (Inr (additionalCode @ sanitizeHtml e html (sanitizeConfig e optsAfter merged)),
                 optsAfter, rendererAfter)))"

section \<open>The section splitter\<close>

record MarkdownSections =
  header :: jsstring
  depth :: nat
  content :: jsstring

text \<open>\<^verbatim>\<open>.replace(/\n{3,}/g, "\n")\<close>: at least three newlines are three and then any number.\<close>

definition NEWLINES3 :: regex where
  "NEWLINES3 = Cat [Rep 3 (Atom (\<lambda>c. c = 10)), Star (Atom (\<lambda>c. c = 10))]"

definition collapseNewlines :: "jsstring \<Rightarrow> jsstring" where
  "collapseNewlines s = replaceAll NEWLINES3 (\<lambda>match p1. [10]) s"

text \<open>
  The state of one run of the loop of \<open>stripTokens\<close>: the array \<open>sections\<close>, which all
  runs share, and the run's own \<open>index\<close>. Reading \<open>sections[index]\<close> outside the
  array gives \<open>undefined\<close>, and the access to its field throws: the result \<open>None\<close>.
\<close>

type_synonym walk = "MarkdownSections list \<times> int"

text \<open>\<^verbatim>\<open>sections[index][header ? "header" : "content"] += s\<close>\<close>

definition appendText :: "bool \<Rightarrow> jsstring \<Rightarrow> walk \<Rightarrow> walk option" where
  "appendText hdr s st =
     (case st of (sections, index) \<Rightarrow>
        if 0 \<le> index \<and> index < int (length sections)
        then Some (sections[nat index :=
                     (if hdr then (sections ! nat index)\<lparr>header := header (sections ! nat index) @ s\<rparr>
                      else (sections ! nat index)\<lparr>content := content (sections ! nat index) @ s\<rparr>)],
                   index)
        else None)"

text \<open>What the loop does when it meets a heading, before it walks the heading's children:
  the current section is tidied, a new one is pushed and the index moves on by one.\<close>

definition tidy :: "MarkdownSections \<Rightarrow> MarkdownSections" where
  "tidy sec = sec\<lparr>header := collapseNewlines (trim (header sec)),
                  content := collapseNewlines (trim (content sec))\<rparr>"

definition openSection :: "nat \<Rightarrow> walk \<Rightarrow> walk option" where
  "openSection d st =
     (case st of (sections, index) \<Rightarrow>
        if 0 \<le> index \<and> index < int (length sections)
        then Some (sections[nat index := tidy (sections ! nat index)] @
                     [\<lparr>header = [], depth = d, content = []\<rparr>],
                   index + 1)
        else None)"

text \<open>
  A nested call \<open>stripTokens(children, sections, header)\<close> starts its own index at the
  last section (\<open>enter\<close>); when it returns, the caller goes on with the array as the
  call left it and with its own index (\<open>leave\<close>).
\<close>

definition enter :: "walk \<Rightarrow> walk" where
  "enter st = (fst st, int (length (fst st)) - 1)"

definition leave :: "walk \<Rightarrow> walk \<Rightarrow> walk option" where
  "leave caller st = Some (fst st, snd caller)"

definition stripHtml :: "env \<Rightarrow> jsstring \<Rightarrow> jsstring" where
  "stripHtml e txt =
     trim (sanitizeHtml e txt
       \<lparr>transformTags = None, s_allowedTags = Some [], s_allowedAttributes = Some [],
        s_allowedClasses = None, allowProtocolRelative = None, lowerCaseAttributeNames = None\<rparr>)
     @ [10, 10]"

text \<open>
  The loop of \<open>stripTokens\<close> (\<open>stripLoop\<close>) and its body for one token
  (\<open>stripToken\<close>): the heading step, the walk through the children when the token has
  \<open>tokens\<close> (with \<^verbatim>\<open>token.type === "heading"\<close> as the selector of the buffer), and the
  \<open>switch\<close> on the type, which hands its own selector on to the cells of a table and to
  the items of a list. \<open>stripChildren\<close> is the walk through
  optional children, \<open>stripCells\<close> and \<open>stripRows\<close> are the loops over the cells of a
  table row and over its body rows.
\<close>

primrec stripLoop :: "env \<Rightarrow> token list \<Rightarrow> bool \<Rightarrow> walk \<Rightarrow> walk option"
  and stripToken :: "env \<Rightarrow> token \<Rightarrow> bool \<Rightarrow> walk \<Rightarrow> walk option"
  and stripChildren :: "env \<Rightarrow> token list option \<Rightarrow> bool \<Rightarrow> walk \<Rightarrow> walk option"
  and stripCells :: "env \<Rightarrow> token list list \<Rightarrow> bool \<Rightarrow> walk \<Rightarrow> walk option"
  and stripRows :: "env \<Rightarrow> token list list list \<Rightarrow> bool \<Rightarrow> walk \<Rightarrow> walk option"
where
  "stripLoop e [] hdr st = Some st"
| "stripLoop e (t # ts) hdr st = do { st1 \<leftarrow> stripToken e t hdr st; stripLoop e ts hdr st1 }"
| "stripToken e (Space raw) hdr st = appendText hdr raw st"
| "stripToken e (Code lang txt) hdr st =
     (if lang \<noteq> Some (js ''math'') then appendText hdr txt st else Some st)"
| "stripToken e (Heading d toks) hdr st = do {
     st1 \<leftarrow> openSection d st;
     st2 \<leftarrow> stripLoop e toks True (enter st1);
     leave st1 st2 }"
| "stripToken e (Table cells rows) hdr st = do {
     st1 \<leftarrow> stripCells e cells hdr st;
     st2 \<leftarrow> appendText hdr [10] st1;
     stripRows e rows hdr st2 }"
| "stripToken e Hr hdr st = Some st"
| "stripToken e (Blockquote toks) hdr st = do { st1 \<leftarrow> stripLoop e toks False (enter st); leave st st1 }"
| "stripToken e (ListTok items) hdr st = do { st1 \<leftarrow> stripLoop e items hdr (enter st); leave st st1 }"
| "stripToken e (ListItem toks) hdr st = do {
     st1 \<leftarrow> stripLoop e toks False (enter st);
     st2 \<leftarrow> leave st st1;
     appendText hdr [10] st2 }"
| "stripToken e (Paragraph toks) hdr st = do { st1 \<leftarrow> stripLoop e toks False (enter st); leave st st1 }"
| "stripToken e (Html txt) hdr st = appendText hdr (stripHtml e txt) st"
| "stripToken e (Text raw toks) hdr st = do {
     st1 \<leftarrow> stripChildren e toks hdr st;
     if toks = None then appendText hdr raw st1 else Some st1 }"
| "stripToken e Def hdr st = Some st"
| "stripToken e Escape hdr st = Some st"
| "stripToken e (Link toks) hdr st = do { st1 \<leftarrow> stripLoop e toks False (enter st); leave st st1 }"
| "stripToken e (Image title txt) hdr st =
     (if truthy title then appendText hdr (case title of Some t \<Rightarrow> t | None \<Rightarrow> []) st
      else appendText hdr txt st)"
| "stripToken e (Strong toks) hdr st = do { st1 \<leftarrow> stripLoop e toks False (enter st); leave st st1 }"
| "stripToken e (Em toks) hdr st = do { st1 \<leftarrow> stripLoop e toks False (enter st); leave st st1 }"
| "stripToken e (Codespan txt) hdr st = appendText hdr txt st"
| "stripToken e Br hdr st = Some st"
| "stripToken e (Del toks) hdr st = do { st1 \<leftarrow> stripLoop e toks False (enter st); leave st st1 }"
| "stripToken e (Generic type toks) hdr st = stripChildren e toks hdr st"
| "stripChildren e None hdr st = Some st"
| "stripChildren e (Some toks) hdr st = do { st1 \<leftarrow> stripLoop e toks False (enter st); leave st st1 }"
| "stripCells e [] hdr st = Some st"
| "stripCells e (cell # cells) hdr st = do {
     st1 \<leftarrow> stripLoop e cell hdr (enter st);
     st2 \<leftarrow> leave st st1;
     st3 \<leftarrow> appendText hdr (js '' '') st2;
     stripCells e cells hdr st3 }"
| "stripRows e [] hdr st = Some st"
| "stripRows e (row # rows) hdr st = do {
     st1 \<leftarrow> stripCells e row hdr st;
     st2 \<leftarrow> appendText hdr [10] st1;
     stripRows e rows hdr st2 }"

definition stripTokens :: "env \<Rightarrow> token list \<Rightarrow> MarkdownSections list \<Rightarrow> bool \<Rightarrow> MarkdownSections list option" where
  "stripTokens e tokens sections hdr = map_option fst (stripLoop e tokens hdr (sections, int (length sections) - 1))"

text \<open>The tokens that \<open>stripSplitBySections\<close> walks: the lexer's, for the text without math.\<close>

definition stripLexer :: "env \<Rightarrow> jsstring \<Rightarrow> RenderOptions \<Rightarrow> token list" where
  "stripLexer e markdown opts =
     lexer e
       (replaceAll INLINE_MATH_REGEXP (\<lambda>match p1. [])
          (replaceAll BLOCK_MATH_REGEXP (\<lambda>match p1. []) (emojify e markdown)))
       ((getOpts opts)\<lparr>tokenizer := StripTokenizer\<rparr>)"

definition stripSplitBySections :: "env \<Rightarrow> jsstring \<Rightarrow> RenderOptions \<Rightarrow> MarkdownSections list option" where
  "stripSplitBySections e markdown opts =
     stripTokens e (stripLexer e markdown opts) [\<lparr>header = [], depth = 0, content = []\<rparr>] False"

definition strip :: "env \<Rightarrow> jsstring \<Rightarrow> RenderOptions \<Rightarrow> jsstring option" where
  "strip e markdown opts =
     map_option
       (\<lambda>sections.
          collapseNewlines
            (trim (join [10, 10] (map (\<lambda>sec. header sec @ [10, 10] @ content sec) sections)))
          @ [10])
       (stripSplitBySections e markdown opts)"

section \<open>A sample environment\<close>

text \<open>
  One environment, for the theorems that run the model on a concrete input. Its case
  conversions are those of ECMAScript on the strings used below: the letters of Basic
  Latin, and U+0130 (capital I with dot above), whose lower case is the two code units
  U+0069 U+0307. Its typesetter accepts the empty expression and throws on any other;
  its \<open>URL\<close> constructor throws; its sanitizer and its parser give their input back.
\<close>

definition sampleLower :: "jsstring \<Rightarrow> jsstring" where
  "sampleLower s =
     concat (map (\<lambda>c. if 65 \<le> c \<and> c \<le> 90 then [c + 32] else if c = 304 then [105, 775] else [c]) s)"

definition sampleUpper :: "jsstring \<Rightarrow> jsstring" where
  "sampleUpper s = map (\<lambda>c. if 97 \<le> c \<and> c \<le> 122 then c - 32 else c) s"

definition sampleEnv :: env where
  \<open>sampleEnv =
     \<lparr>emojify = (\<lambda>s. s),
      renderToString = (\<lambda>tex displayMode. if tex = [] then Some (js ''<span class="katex"></span>'') else None),
      newURL = (\<lambda>url base. None),
      contentType = (\<lambda>ext. None),
      extname = (\<lambda>path. []),
      sanitizeHtml = (\<lambda>html options. html),
      markedParse = (\<lambda>useAlerts inline markdown options. (markdown, o_renderer options)),
      lexer = (\<lambda>markdown options. []),
      superBlockquote = (\<lambda>quote. js ''<blockquote>\<newline>'' @ quote @ js ''</blockquote>\<newline>''),
      toLowerCase = sampleLower,
      toUpperCase = sampleUpper,
      defaultAllowedTags = [],
      defaultAllowedAttributes = [],
      KATEX_CLASSES = [],
      minify = (\<lambda>s. s)\<rparr>\<close>


text \<open>
  The sample environment with a parser that knows one form of Markdown: a paragraph that
  is an image without alt text and without title, \<^verbatim>\<open>![](target)\<close>. For it the parser calls
  the image rule of the renderer it is given with the target, \<open>null\<close> and the empty
  string, and puts the result into a paragraph.
\<close>

definition imageParser :: "env \<Rightarrow> bool \<Rightarrow> bool \<Rightarrow> jsstring \<Rightarrow> MarkedOptions \<Rightarrow> jsstring \<times> Renderer" where
  "imageParser e useAlerts inl markdown options =
     (if startsWith markdown (js ''![]('') \<and> startsWith (rev markdown) (js '')'')
      then (let r = image e (o_renderer options) (butlast (drop 4 markdown)) None []
            in (js ''<p>'' @ fst r @ js ''</p>'' @ [10], snd r))
      else (markdown, o_renderer options))"

definition imageEnv :: env where
  "imageEnv = sampleEnv\<lparr>markedParse := imageParser sampleEnv\<rparr>"

text \<open>The options object \<open>{}\<close>.\<close>

definition noOptions :: RenderOptions where
  "noOptions =
     \<lparr>baseUrl = None, mediaBaseUrl = None, inline = None, allowIframes = None, allowMath = None,
      disableHtmlSanitization = None, renderer = None, allowedClasses = None, allowedTags = None,
      allowedAttributes = None, breaks = None, noLinks = None, youtubeHandling = None,
      githubSlugger = None, mermaid = None, alerts = None, svgCheckboxes = None\<rparr>"

section \<open>Vocabulary of the properties\<close>

text \<open>
  The levels of the heading tokens of a token tree, in document order: a heading comes
  before the headings among its children, and the children are all the sequences that the
  walk visits (\<open>tokens\<close>, the cells of a table and the items of a list).
\<close>

primrec headingLevels :: "token list \<Rightarrow> nat list"
  and headingLevelsToken :: "token \<Rightarrow> nat list"
  and headingLevelsChildren :: "token list option \<Rightarrow> nat list"
  and headingLevelsCells :: "token list list \<Rightarrow> nat list"
  and headingLevelsRows :: "token list list list \<Rightarrow> nat list"
where
  "headingLevels [] = []"
| "headingLevels (t # ts) = headingLevelsToken t @ headingLevels ts"
| "headingLevelsToken (Space raw) = []"
| "headingLevelsToken (Code lang txt) = []"
| "headingLevelsToken (Heading d toks) = d # headingLevels toks"
| "headingLevelsToken (Table cells rows) = headingLevelsCells cells @ headingLevelsRows rows"
| "headingLevelsToken Hr = []"
| "headingLevelsToken (Blockquote toks) = headingLevels toks"
| "headingLevelsToken (ListTok items) = headingLevels items"
| "headingLevelsToken (ListItem toks) = headingLevels toks"
| "headingLevelsToken (Paragraph toks) = headingLevels toks"
| "headingLevelsToken (Html txt) = []"
| "headingLevelsToken (Text raw toks) = headingLevelsChildren toks"
| "headingLevelsToken Def = []"
| "headingLevelsToken Escape = []"
| "headingLevelsToken (Link toks) = headingLevels toks"
| "headingLevelsToken (Image title txt) = []"
| "headingLevelsToken (Strong toks) = headingLevels toks"
| "headingLevelsToken (Em toks) = headingLevels toks"
| "headingLevelsToken (Codespan txt) = []"
| "headingLevelsToken Br = []"
| "headingLevelsToken (Del toks) = headingLevels toks"
| "headingLevelsToken (Generic type toks) = headingLevelsChildren toks"
| "headingLevelsChildren None = []"
| "headingLevelsChildren (Some toks) = headingLevels toks"
| "headingLevelsCells [] = []"
| "headingLevelsCells (cell # cells) = headingLevels cell @ headingLevelsCells cells"
| "headingLevelsRows [] = []"
| "headingLevelsRows (row # rows) = headingLevelsCells row @ headingLevelsRows rows"

text \<open>The index of a run of the loop points into the array of sections.\<close>

definition inRange :: "walk \<Rightarrow> bool" where
  "inRange st \<longleftrightarrow> 0 \<le> snd st \<and> snd st < int (length (fst st))"

text \<open>
  A step of the walk returns, its index is still in range, and the sections have the
  levels they had, followed by the levels \<open>ds\<close>.
\<close>

definition grows :: "walk \<Rightarrow> nat list \<Rightarrow> walk option \<Rightarrow> bool" where
  "grows st ds r \<longleftrightarrow>
     (case r of None \<Rightarrow> False
      | Some st' \<Rightarrow> inRange st' \<and> map depth (fst st') = map depth (fst st) @ ds)"

text \<open>A string has a run of three newlines.\<close>

fun newlineRun3 :: "jsstring \<Rightarrow> bool" where
  "newlineRun3 (a # b # c # s) = ((a = 10 \<and> b = 10 \<and> c = 10) \<or> newlineRun3 (b # c # s))"
| "newlineRun3 s = False"

text \<open>
  The replacement of every run of three or more newlines by one newline, as a recursion
  on the string; \<open>collapseNewlines\<close>, which is the source's \<open>replace\<close>, is proved equal
  to it below.
\<close>

function squeeze :: "jsstring \<Rightarrow> jsstring" where
  "squeeze [] = []"
| "squeeze (c # cs) =
     (if startsWith (c # cs) [10, 10, 10] then 10 # squeeze (dropWhile (\<lambda>x. x = 10) cs)
      else c # squeeze cs)"
  by pat_completeness auto
termination
  by (relation "measure length") (auto simp: length_dropWhile_le less_Suc_eq_le)








section \<open>Evaluation rules\<close>

lemma repeatN_numeral:
  "repeatN f (numeral k) st = concat (map (repeatN f (pred_numeral k)) (f st))"
  by (simp add: numeral_eq_Suc)

lemmas regex_unfold = regexTest_def regexExec_def js_def lit_def anyChar_def nonSpaceChar_def
  spaceChar_def

lemmas regex_eval = isWhiteSpace_def isLineTerminator_def greedy.simps lazy.simps repeatN_numeral
  search.simps

section \<open>YouTube links that are and are not recognised\<close>

lemma youtube_watch:
  "isYoutubeVideo (js ''https://www.youtube.com/watch?v=VIDEOID1234'')"
  unfolding isYoutubeVideo_def youtubeRegex_def videoIdChar_def regex_unfold
  by (simp add: regex_eval)

lemma youtube_short:
  "isYoutubeVideo (js ''https://youtu.be/VIDEOID1234'')"
  unfolding isYoutubeVideo_def youtubeRegex_def videoIdChar_def regex_unfold
  by (simp add: regex_eval)

lemma youtube_embed:
  "isYoutubeVideo (js ''youtube.com/embed/VIDEOID1234'')"
  unfolding isYoutubeVideo_def youtubeRegex_def videoIdChar_def regex_unfold
  by (simp add: regex_eval)

lemma youtube_other:
  "\<not> isYoutubeVideo (js ''https://example.com/video.mp4'')"
  unfolding isYoutubeVideo_def youtubeRegex_def videoIdChar_def regex_unfold
  by (simp add: regex_eval)

text \<open>
  C5: the recogniser accepts \<^verbatim>\<open>https://www.youtube.com/watch?v=VIDEOID1234\<close>,
  \<^verbatim>\<open>https://youtu.be/VIDEOID1234\<close> and \<^verbatim>\<open>youtube.com/embed/VIDEOID1234\<close>, and rejects
  \<^verbatim>\<open>https://example.com/video.mp4\<close>.
\<close>

theorem isYoutubeVideo_examples:
  "isYoutubeVideo (js ''https://www.youtube.com/watch?v=VIDEOID1234'') \<and>
   isYoutubeVideo (js ''https://youtu.be/VIDEOID1234'') \<and>
   isYoutubeVideo (js ''youtube.com/embed/VIDEOID1234'') \<and>
   \<not> isYoutubeVideo (js ''https://example.com/video.mp4'')"
  using youtube_watch youtube_short youtube_embed youtube_other by blast

section \<open>The number and the levels of the sections\<close>

lemma map_depth_update:
  "depth y = depth (xs ! i) \<Longrightarrow> map depth (xs[i := y]) = map depth xs"
  by (cases "i < length xs") (simp_all add: map_update list_update_same_conv list_update_beyond)

lemma grows_append: "inRange st \<Longrightarrow> grows st [] (appendText hdr s st)"
  by (cases st) (simp add: grows_def inRange_def appendText_def map_depth_update)

lemma tidy_depth: "depth (tidy sec) = depth sec"
  by (simp add: tidy_def)

lemma grows_openSection: "inRange st \<Longrightarrow> grows st [d] (openSection d st)"
  by (cases st) (simp add: grows_def inRange_def openSection_def map_depth_update tidy_depth)

lemma inRange_enter: "inRange st \<Longrightarrow> inRange (enter st)"
  by (auto simp: inRange_def enter_def)

lemma grows_bind:
  assumes "grows st ds r"
    and "\<And>st'. inRange st' \<Longrightarrow> map depth (fst st') = map depth (fst st) @ ds \<Longrightarrow> grows st' es (f st')"
  shows "grows st (ds @ es) (r \<bind> f)"
proof -
  from assms(1) obtain st' where r: "r = Some st'" and i: "inRange st'"
    and m: "map depth (fst st') = map depth (fst st) @ ds"
    by (auto simp: grows_def split: option.splits)
  from assms(2)[OF i m] show ?thesis
    using r m by (auto simp: grows_def split: option.splits)
qed

lemma grows_nested:
  assumes "inRange st" and "grows (enter st) ds r"
  shows "grows st ds (r \<bind> leave st)"
proof -
  from assms(2) obtain st' where r: "r = Some st'"
    and m: "map depth (fst st') = map depth (fst st) @ ds"
    by (auto simp: grows_def enter_def split: option.splits)
  from m have "length (fst st') = length (fst st) + length ds"
    by (metis length_append length_map)
  with assms(1) r m show ?thesis
    by (simp add: grows_def leave_def inRange_def)
qed

lemma grows_Some: "inRange st \<Longrightarrow> grows st [] (Some st)"
  by (simp add: grows_def)

lemma grows_bind':
  assumes "grows st ds r"
    and "\<And>st'. inRange st' \<Longrightarrow> grows st' es (f st')"
    and "xs = ds @ es"
  shows "grows st xs (r \<bind> f)"
  using grows_bind[OF assms(1), of es f] assms(2,3) by simp

lemma grows_then_append: "grows st ds r \<Longrightarrow> grows st ds (r \<bind> appendText hdr s)"
  by (rule grows_bind'[where es = "[]"]) (simp_all add: grows_append)

lemma grows_children:
  assumes "\<forall>hdr st. inRange st \<longrightarrow> grows st ds (stripLoop e toks hdr st)" and "inRange st"
  shows "grows st ds (stripLoop e toks h (enter st) \<bind> leave st)"
proof -
  from assms have "grows (enter st) ds (stripLoop e toks h (enter st))"
    using inRange_enter by blast
  with assms(2) show ?thesis by (rule grows_nested)
qed

lemma walk_grows_all:
  "(\<forall>hdr st. inRange st \<longrightarrow> grows st (headingLevelsToken t) (stripToken e t hdr st)) \<and>
   (\<forall>hdr st. inRange st \<longrightarrow> grows st (headingLevels ts) (stripLoop e ts hdr st)) \<and>
   (\<forall>hdr st. inRange st \<longrightarrow> grows st (headingLevelsCells cells) (stripCells e cells hdr st)) \<and>
   (\<forall>hdr st. inRange st \<longrightarrow> grows st (headingLevelsChildren toks) (stripChildren e toks hdr st)) \<and>
   (\<forall>hdr st. inRange st \<longrightarrow> grows st (headingLevelsRows rows) (stripRows e rows hdr st))"
proof (rule stripLoop_stripToken_stripChildren_stripCells_stripRows.induct
    [where ?P1.0 = "\<lambda>t. \<forall>hdr st. inRange st \<longrightarrow> grows st (headingLevelsToken t) (stripToken e t hdr st)"
       and ?P2.0 = "\<lambda>ts. \<forall>hdr st. inRange st \<longrightarrow> grows st (headingLevels ts) (stripLoop e ts hdr st)"
       and ?P3.0 = "\<lambda>cells. \<forall>hdr st. inRange st \<longrightarrow> grows st (headingLevelsCells cells) (stripCells e cells hdr st)"
       and ?P4.0 = "\<lambda>toks. \<forall>hdr st. inRange st \<longrightarrow> grows st (headingLevelsChildren toks) (stripChildren e toks hdr st)"
       and ?P5.0 = "\<lambda>rows. \<forall>hdr st. inRange st \<longrightarrow> grows st (headingLevelsRows rows) (stripRows e rows hdr st)"],
    goal_cases)
  case (3 d toks)
  show ?case
  proof (intro allI impI)
    fix hdr st assume st: "inRange st"
    have "grows st ([d] @ headingLevels toks)
            (openSection d st \<bind> (\<lambda>st1. stripLoop e toks True (enter st1) \<bind> leave st1))"
      by (rule grows_bind'[OF grows_openSection[OF st]]) (simp_all add: grows_children[OF 3])
    then show "grows st (headingLevelsToken (Heading d toks)) (stripToken e (Heading d toks) hdr st)"
      by simp
  qed
next
  case (4 cells rows)
  show ?case
  proof (intro allI impI)
    fix hdr st assume st: "inRange st"
    have "grows st (headingLevelsCells cells @ headingLevelsRows rows)
            ((stripCells e cells hdr st \<bind> appendText hdr [10]) \<bind> stripRows e rows hdr)"
      by (rule grows_bind'[OF grows_then_append]) (simp_all add: 4 st)
    then show "grows st (headingLevelsToken (Table cells rows)) (stripToken e (Table cells rows) hdr st)"
      by simp
  qed
next
  case (8 toks)
  show ?case
  proof (intro allI impI)
    fix hdr st assume st: "inRange st"
    have "grows st (headingLevels toks) ((stripLoop e toks False (enter st) \<bind> leave st) \<bind> appendText hdr [10])"
      by (rule grows_then_append) (rule grows_children[OF 8 st])
    then show "grows st (headingLevelsToken (ListItem toks)) (stripToken e (ListItem toks) hdr st)"
      by simp
  qed
next
  case (11 raw toks)
  show ?case
  proof (intro allI impI)
    fix hdr st assume st: "inRange st"
    have "grows st (headingLevelsChildren toks @ [])
            (stripChildren e toks hdr st \<bind> (\<lambda>st1. if toks = None then appendText hdr raw st1 else Some st1))"
      by (rule grows_bind'[where es = "[]"]) (simp_all add: 11 st grows_append grows_Some)
    then show "grows st (headingLevelsToken (Text raw toks)) (stripToken e (Text raw toks) hdr st)"
      by simp
  qed
next
  case (23 t ts)
  show ?case
  proof (intro allI impI)
    fix hdr st assume st: "inRange st"
    have "grows st (headingLevelsToken t @ headingLevels ts) (stripToken e t hdr st \<bind> stripLoop e ts hdr)"
      by (rule grows_bind'[where ds = "headingLevelsToken t"]) (simp_all add: 23 st)
    then show "grows st (headingLevels (t # ts)) (stripLoop e (t # ts) hdr st)"
      by simp
  qed
next
  case (25 cell cells)
  show ?case
  proof (intro allI impI)
    fix hdr st assume st: "inRange st"
    have "grows st (headingLevels cell @ headingLevelsCells cells)
            (((stripLoop e cell hdr (enter st) \<bind> leave st) \<bind> appendText hdr (js '' '')) \<bind> stripCells e cells hdr)"
      by (rule grows_bind'[OF grows_then_append[OF grows_children[OF _ st]]]) (simp_all add: 25)
    then show "grows st (headingLevelsCells (cell # cells)) (stripCells e (cell # cells) hdr st)"
      by simp
  qed
next
  case (29 row rows)
  show ?case
  proof (intro allI impI)
    fix hdr st assume st: "inRange st"
    have "grows st (headingLevelsCells row @ headingLevelsRows rows)
            ((stripCells e row hdr st \<bind> appendText hdr [10]) \<bind> stripRows e rows hdr)"
      by (rule grows_bind'[OF grows_then_append]) (simp_all add: 29 st)
    then show "grows st (headingLevelsRows (row # rows)) (stripRows e (row # rows) hdr st)"
      by simp
  qed
qed (simp_all add: grows_append grows_Some grows_children)

lemma sections_levels:
  "\<exists>sections.
     stripSplitBySections e markdown opts = Some sections \<and>
     length sections = length (headingLevels (stripLexer e markdown opts)) + 1 \<and>
     map depth sections = 0 # headingLevels (stripLexer e markdown opts)"
proof -
  let ?st = "([\<lparr>header = [], depth = 0, content = []\<rparr>], 0) :: walk"
  have "inRange ?st" by (simp add: inRange_def)
  with walk_grows_all[where e = e and ts = "stripLexer e markdown opts"]
  have "grows ?st (headingLevels (stripLexer e markdown opts))
          (stripLoop e (stripLexer e markdown opts) False ?st)"
    by blast
  then obtain st' where run: "stripLoop e (stripLexer e markdown opts) False ?st = Some st'"
    and levels: "map depth (fst st') = [0] @ headingLevels (stripLexer e markdown opts)"
    by (auto simp: grows_def split: option.splits)
  from levels have "length (fst st') = length (headingLevels (stripLexer e markdown opts)) + 1"
    by (metis One_nat_def Suc_eq_plus1 append_Cons append_Nil length_Cons length_map)
  with run levels show ?thesis
    by (simp add: stripSplitBySections_def stripTokens_def)
qed

text \<open>
  C1: for every Markdown input \<open>stripSplitBySections\<close> returns a sequence of sections,
  one more than there are heading tokens in the tree it walks; the first section has
  depth 0 and the others have, in document order, the levels of the headings.
\<close>

theorem stripSplitBySections_sections:
  "\<exists>sections.
     stripSplitBySections e markdown opts = Some sections \<and>
     length sections = length (headingLevels (stripLexer e markdown opts)) + 1 \<and>
     map depth sections = 0 # headingLevels (stripLexer e markdown opts)"
  by (rule sections_levels)

section \<open>Collapsing newlines and trimming\<close>

declare squeeze.simps(2) [simp del]

lemma squeeze_run:
  "startsWith (c # cs) [10, 10, 10] \<Longrightarrow> squeeze (c # cs) = 10 # squeeze (dropWhile (\<lambda>x. x = 10) cs)"
  by (simp only: squeeze.simps if_True)

lemma squeeze_no_match:
  "\<not> startsWith (c # cs) [10, 10, 10] \<Longrightarrow> squeeze (c # cs) = c # squeeze cs"
  by (simp only: squeeze.simps if_False)

lemma newlineRun3_iff: "newlineRun3 s \<longleftrightarrow> (\<exists>xs ys. s = xs @ [10, 10, 10] @ ys)"
proof
  show "newlineRun3 s \<Longrightarrow> \<exists>xs ys. s = xs @ [10, 10, 10] @ ys"
  proof (induction s rule: newlineRun3.induct)
    case (1 a b c s)
    show ?case
    proof (cases "a = 10 \<and> b = 10 \<and> c = 10")
      case True
      then have "a # b # c # s = [] @ [10, 10, 10] @ s" by simp
      then show ?thesis by blast
    next
      case False
      with 1 obtain xs ys where "b # c # s = xs @ [10, 10, 10] @ ys" by auto
      then have "a # b # c # s = (a # xs) @ [10, 10, 10] @ ys" by simp
      then show ?thesis by blast
    qed
  qed simp_all
next
  assume "\<exists>xs ys. s = xs @ [10, 10, 10] @ ys"
  then obtain xs ys where s: "s = xs @ [10, 10, 10] @ ys" by blast
  show "newlineRun3 s" unfolding s
  proof (induction xs)
    case Nil
    show ?case by simp
  next
    case (Cons x xs)
    then show ?case
      by (cases xs; cases "tl xs") auto
  qed
qed

lemma startsWith_iff: "startsWith s p \<longleftrightarrow> (\<exists>r. s = p @ r)"
  by (induction s p rule: startsWith.induct) auto

lemma startsWith_single: "startsWith s [c] \<longleftrightarrow> s \<noteq> [] \<and> hd s = c"
  by (cases s) auto

lemma squeeze_hd:
  assumes "s \<noteq> []" and "hd s \<noteq> 10"
  shows "squeeze s \<noteq> [] \<and> hd (squeeze s) = hd s"
proof -
  from assms(1) obtain c cs where s: "s = c # cs" by (cases s) auto
  with assms(2) have "\<not> startsWith (c # cs) [10, 10, 10]" by simp
  then have "squeeze s = c # squeeze cs" unfolding s by (rule squeeze_no_match)
  then show ?thesis by (simp add: s)
qed

lemma squeeze_starts_newline:
  assumes "startsWith (squeeze s) [10]"
  shows "startsWith s [10]"
proof (cases s)
  case Nil
  with assms show ?thesis by simp
next
  case (Cons c cs)
  show ?thesis
  proof (cases "startsWith (c # cs) [10, 10, 10]")
    case True
    then show ?thesis using Cons by simp
  next
    case False
    with assms Cons show ?thesis by (simp add: squeeze_no_match[OF False])
  qed
qed

lemma squeeze_starts_two:
  assumes a: "startsWith (squeeze s) [10, 10]"
  shows "startsWith s [10, 10]"
proof (cases s)
  case Nil
  with a show ?thesis by simp
next
  case (Cons c cs)
  show ?thesis
  proof (cases "startsWith (c # cs) [10, 10, 10]")
    case True
    then show ?thesis using Cons by (cases cs) auto
  next
    case False
    then have "squeeze (c # cs) = c # squeeze cs" by (rule squeeze_no_match)
    with a Cons have "startsWith (c # squeeze cs) [10, 10]" by simp
    then have "c = 10" and "startsWith (squeeze cs) [10]" by simp_all
    with squeeze_starts_newline[of cs] Cons show ?thesis
      by (cases cs) auto
  qed
qed

lemma newlineRun3_Cons:
  "newlineRun3 (c # s) \<longleftrightarrow> (c = 10 \<and> startsWith s [10, 10]) \<or> newlineRun3 s"
  by (cases s; cases "tl s") auto

lemma squeeze_no_run: "\<not> newlineRun3 (squeeze s)"
proof (induction s rule: squeeze.induct)
  case 1
  show ?case by simp
next
  case (2 c cs)
  show ?case
  proof (cases "startsWith (c # cs) [10, 10, 10]")
    case True
    let ?r = "dropWhile (\<lambda>x. x = 10) cs"
    have "\<not> startsWith ?r [10]"
    proof
      assume "startsWith ?r [10]"
      then have "?r \<noteq> []" and "hd ?r = 10" by (simp_all add: startsWith_single)
      with hd_dropWhile[of "\<lambda>x. x = 10" cs] show False by blast
    qed
    then have "\<not> startsWith (squeeze ?r) [10]"
      using squeeze_starts_newline by blast
    then have "\<not> startsWith (squeeze ?r) [10, 10]"
      by (cases "squeeze ?r") auto
    with 2(1)[OF True] show ?thesis by (simp add: newlineRun3_Cons squeeze_run[OF True])
  next
    case False
    then have "\<not> (c = 10 \<and> startsWith cs [10, 10])" by auto
    with squeeze_starts_two[of cs] have "\<not> (c = 10 \<and> startsWith (squeeze cs) [10, 10])" by blast
    with 2(2)[OF False] show ?thesis by (simp add: newlineRun3_Cons squeeze_no_match[OF False])
  qed
qed

lemma squeeze_last:
  "s \<noteq> [] \<Longrightarrow> last s \<noteq> 10 \<Longrightarrow> squeeze s \<noteq> [] \<and> last (squeeze s) = last s"
proof (induction s rule: squeeze.induct)
  case 1
  then show ?case by simp
next
  case (2 c cs)
  show ?case
  proof (cases "startsWith (c # cs) [10, 10, 10]")
    case True
    let ?r = "dropWhile (\<lambda>x. x = 10) cs"
    from True have cs: "cs \<noteq> []" by auto
    with 2(4) have "last cs \<noteq> 10" by simp
    moreover from cs have "last cs \<in> set cs" by simp
    ultimately have "\<not> (\<forall>x\<in>set cs. x = 10)" by blast
    then have r: "?r \<noteq> []" by (simp add: dropWhile_eq_Nil_conv)
    then have "last (takeWhile (\<lambda>x. x = 10) cs @ ?r) = last ?r" by (rule last_appendR)
    then have "last ?r = last cs" by simp
    with 2(1)[OF True r] 2(4) cs r show ?thesis by (simp add: squeeze_run[OF True])
  next
    case False
    show ?thesis
    proof (cases cs)
      case Nil
      with squeeze_no_match[OF False] show ?thesis by simp
    next
      case (Cons d ds)
      with squeeze_no_match[OF False] 2(2)[OF False] 2(4) show ?thesis by simp
    qed
  qed
qed




lemma matchAtom_hd:
  "matchAtom p (s, g) = (if s \<noteq> [] \<and> p (hd s) then [(tl s, g)] else [])"
  by (cases s) auto

lemma startsWith_Cons_iff:
  "startsWith s (p # ps) \<longleftrightarrow> s \<noteq> [] \<and> hd s = p \<and> startsWith (tl s) ps"
  by (cases s) auto

lemma repeat3_newline:
  "repeatN (matchAtom (\<lambda>c. c = 10)) 3 (s, g) =
     (if startsWith s [10, 10, 10] then [(drop 3 s, g)] else [])"
  by (auto simp: numeral_3_eq_3 matchAtom_hd startsWith_Cons_iff drop_Suc)

lemma greedy_newline:
  "greedy (matchAtom (\<lambda>c. c = 10)) (s, g) \<noteq> [] \<and>
   hd (greedy (matchAtom (\<lambda>c. c = 10)) (s, g)) = (dropWhile (\<lambda>c. c = 10) s, g)"
proof (induction s)
  case Nil
  have "greedy (matchAtom (\<lambda>c. c = 10)) ([], g) = [([], g)]"
    by (subst greedy.simps) simp
  then show ?case by simp
next
  case (Cons c cs)
  show ?case
  proof (cases "c = 10")
    case True
    have "greedy (matchAtom (\<lambda>c. c = 10)) (c # cs, g) =
            greedy (matchAtom (\<lambda>c. c = 10)) (cs, g) @ [(c # cs, g)]"
      by (subst greedy.simps) (simp add: True)
    with Cons True show ?thesis by simp
  next
    case False
    have "greedy (matchAtom (\<lambda>c. c = 10)) (c # cs, g) = [(c # cs, g)]"
      by (subst greedy.simps) (simp add: False)
    with False show ?thesis by simp
  qed
qed

lemma inSeq_Nil_fun: "inSeq [] = (\<lambda>st. [st])"
  by (rule ext) simp

lemma rmatch_NEWLINES3:
  "rmatch NEWLINES3 (s, g) =
     (if startsWith s [10, 10, 10] then greedy (matchAtom (\<lambda>c. c = 10)) (drop 3 s, g) else [])"
  by (simp add: NEWLINES3_def repeat3_newline inSeq_Nil_fun)

lemma dropWhile_three:
  "startsWith s [10, 10, 10] \<Longrightarrow> dropWhile (\<lambda>c. c = 10) (drop 3 s) = dropWhile (\<lambda>c. c = 10) s"
  by (auto simp: startsWith_iff)

lemma search_NEWLINES3_Nil: "search NEWLINES3 pre [] = None"
  by (simp add: search.simps rmatch_NEWLINES3)

lemma search_NEWLINES3_match:
  assumes "startsWith (c # cs) [10, 10, 10]"
  shows "search NEWLINES3 pre (c # cs) =
           Some (found pre (c # cs) (dropWhile (\<lambda>c. c = 10) (c # cs), None))"
proof -
  let ?g = "greedy (matchAtom (\<lambda>c. c = 10)) (drop 3 (c # cs), None)"
  from greedy_newline[of "drop 3 (c # cs)" None] dropWhile_three[OF assms]
  obtain rest where "?g = (dropWhile (\<lambda>c. c = 10) (c # cs), None) # rest"
    by (cases ?g) auto
  with assms show ?thesis
    by (simp only: search.simps rmatch_NEWLINES3 if_True list.case)
qed

lemma search_NEWLINES3_no_match:
  "\<not> startsWith (c # cs) [10, 10, 10] \<Longrightarrow>
   search NEWLINES3 pre (c # cs) = search NEWLINES3 (pre @ [c]) cs"
  by (simp only: search.simps rmatch_NEWLINES3 if_False list.case)

lemma search_squeeze:
  "case search NEWLINES3 pre s of
     None \<Rightarrow> squeeze s = s
   | Some m \<Rightarrow> m_text m \<noteq> [] \<and> length (m_after m) < length s \<and>
               (\<exists>a. m_before m = pre @ a \<and> squeeze s = a @ 10 # squeeze (m_after m))"
proof (induction s arbitrary: pre)
  case Nil
  show ?case by (simp add: search_NEWLINES3_Nil)
next
  case (Cons c cs)
  show ?case
  proof (cases "startsWith (c # cs) [10, 10, 10]")
    case True
    then have c: "c = 10" by simp
    have "length (dropWhile (\<lambda>c. c = 10) cs) \<le> length cs" by (rule length_dropWhile_le)
    then show ?thesis
      by (simp only: search_NEWLINES3_match[OF True] squeeze_run[OF True] option.case)
         (simp add: c)
  next
    case False
    from Cons[where pre = "pre @ [c]"] show ?thesis
      by (auto simp: search_NEWLINES3_no_match[OF False] squeeze_no_match[OF False]
               split: option.splits)
  qed
qed

lemma replaceAll_NEWLINES3: "replaceAll NEWLINES3 (\<lambda>match p1. [10]) s = squeeze s"
proof (induction s rule: length_induct)
  case (1 s)
  show ?case
  proof (cases "search NEWLINES3 [] s")
    case None
    with search_squeeze[where pre = "[]" and s = s] show ?thesis
      by (subst replaceAll.simps) (simp add: regexExec_def)
  next
    case (Some m)
    with search_squeeze[where pre = "[]" and s = s] have t: "m_text m \<noteq> []" and l: "length (m_after m) < length s"
      and sq: "squeeze s = m_before m @ 10 # squeeze (m_after m)"
      by auto
    from 1 l have "replaceAll NEWLINES3 (\<lambda>match p1. [10]) (m_after m) = squeeze (m_after m)"
      by blast
    with Some t l sq show ?thesis
      by (subst replaceAll.simps) (simp add: regexExec_def)
  qed
qed

lemma collapseNewlines_squeeze: "collapseNewlines s = squeeze s"
  by (simp add: collapseNewlines_def replaceAll_NEWLINES3)


lemma trim_ends:
  "trim s = [] \<or> (\<not> isWhiteSpace (hd (trim s)) \<and> \<not> isWhiteSpace (last (trim s)))"
proof (cases "trim s = []")
  case True
  then show ?thesis by simp
next
  case False
  let ?u = "dropWhile isWhiteSpace s"
  let ?v = "dropWhile isWhiteSpace (rev ?u)"
  from False have v: "?v \<noteq> []" by (simp add: trim_def)
  then have hv: "\<not> isWhiteSpace (hd ?v)" by (rule hd_dropWhile)
  from v have "last (takeWhile isWhiteSpace (rev ?u) @ ?v) = last ?v" by (rule last_appendR)
  then have lv: "last ?v = last (rev ?u)" by simp
  have u: "?u \<noteq> []"
  proof
    assume a: "?u = []"
    have "?v = []" unfolding a by simp
    with v show False by contradiction
  qed
  then have "\<not> isWhiteSpace (hd ?u)" by (rule hd_dropWhile)
  with lv u have "\<not> isWhiteSpace (last ?v)" by (simp add: last_rev)
  with hv v show ?thesis by (simp add: trim_def hd_rev last_rev)
qed


lemma newline_isWhiteSpace: "isWhiteSpace 10"
  by (simp add: isWhiteSpace_def)

lemma no_run_snoc:
  assumes "\<not> newlineRun3 x" and "x = [] \<or> last x \<noteq> 10"
  shows "\<not> newlineRun3 (x @ [10])"
proof
  assume "newlineRun3 (x @ [10])"
  then obtain xs ys where e: "x @ [10] = xs @ [10, 10, 10] @ ys"
    by (auto simp: newlineRun3_iff)
  show False
  proof (cases ys rule: rev_cases)
    case Nil
    with e have "x @ [10] = (xs @ [10, 10]) @ [10]" by simp
    then have "x = xs @ [10, 10]" by (simp only: append1_eq_conv)
    with assms(2) show False by simp
  next
    case (snoc ys' y)
    with e have "x @ [10] = (xs @ [10, 10, 10] @ ys') @ [y]" by simp
    then have "x = xs @ [10, 10, 10] @ ys'" by (simp only: append1_eq_conv)
    with assms(1) show False by (auto simp: newlineRun3_iff)
  qed
qed

lemma tidy_text:
  "\<not> newlineRun3 (collapseNewlines (trim s)) \<and>
   (collapseNewlines (trim s) = [] \<or>
    (\<not> isWhiteSpace (hd (collapseNewlines (trim s))) \<and>
     \<not> isWhiteSpace (last (collapseNewlines (trim s)))))"
proof (cases "trim s = []")
  case True
  then show ?thesis by (simp add: collapseNewlines_squeeze)
next
  case False
  with trim_ends[of s] have h: "\<not> isWhiteSpace (hd (trim s))" and l: "\<not> isWhiteSpace (last (trim s))"
    by auto
  from h have "hd (trim s) \<noteq> 10" using newline_isWhiteSpace by auto
  with False have "hd (squeeze (trim s)) = hd (trim s)" by (simp add: squeeze_hd)
  moreover from l have "last (trim s) \<noteq> 10" using newline_isWhiteSpace by auto
  with False have "last (squeeze (trim s)) = last (trim s)" by (simp add: squeeze_last)
  ultimately show ?thesis using h l by (simp add: collapseNewlines_squeeze squeeze_no_run)
qed

section \<open>The text that strip returns\<close>

text \<open>
  C7: for every Markdown input the string that \<open>strip\<close> returns ends with a newline and
  has no run of three or more newlines.
\<close>

theorem strip_newlines:
  "\<exists>r. strip e markdown opts = Some r \<and> r \<noteq> [] \<and> last r = 10 \<and>
       \<not> (\<exists>xs ys. r = xs @ [10, 10, 10] @ ys)"
proof -
  from sections_levels[of e markdown opts]
  obtain sections where s: "stripSplitBySections e markdown opts = Some sections" by blast
  let ?t = "collapseNewlines
              (trim (join [10, 10] (map (\<lambda>sec. header sec @ [10, 10] @ content sec) sections)))"
  from tidy_text have "\<not> newlineRun3 ?t" and "?t = [] \<or> \<not> isWhiteSpace (last ?t)" by blast+
  then have "\<not> newlineRun3 (?t @ [10])"
    using newline_isWhiteSpace by (intro no_run_snoc) auto
  with s show ?thesis by (simp add: strip_def newlineRun3_iff)
qed


section \<open>Which sections are trimmed and collapsed\<close>






















section \<open>What render does to the caller's options\<close>

text \<open>Each way out of \<open>render\<close> gives the same options and the same renderer.\<close>

lemma triple_second:
  "fst (snd (if c then (a, b, d)
             else (case m of Inl err \<Rightarrow> (f err, b, d) | Inr x \<Rightarrow> (g x, b, d)))) = b"
  by (simp split: sum.split)

lemma triple_third:
  "snd (snd (if c then (a, b, d)
             else (case m of Inl err \<Rightarrow> (f err, b, d) | Inr x \<Rightarrow> (g x, b, d)))) = d"
  by (simp split: sum.split)

lemma render_renderer:
  "snd (snd (render e markdown opts)) =
     snd (markedParse e (alerts opts \<noteq> Some False) (inline opts = Some True)
            (if allowMath opts = Some True then mathify e (emojify e markdown) else emojify e markdown)
            (getOpts (opts\<lparr>mediaBaseUrl :=
               (case mediaBaseUrl opts of Some u \<Rightarrow> Some u | None \<Rightarrow> baseUrl opts)\<rparr>)))"
  unfolding render_def Let_def triple_third by simp

lemma render_leaves:
  "fst (snd (render e markdown opts)) =
     (case renderer opts of
        Some r \<Rightarrow>
          opts\<lparr>mediaBaseUrl := (case mediaBaseUrl opts of Some u \<Rightarrow> Some u | None \<Rightarrow> baseUrl opts),
               renderer := Some (snd (snd (render e markdown opts)))\<rparr>
      | None \<Rightarrow>
          opts\<lparr>mediaBaseUrl := (case mediaBaseUrl opts of Some u \<Rightarrow> Some u | None \<Rightarrow> baseUrl opts)\<rparr>)"
  unfolding render_renderer unfolding render_def Let_def triple_second by (simp split: option.split)

lemma getOpts_renderer:
  "o_renderer (getOpts opts) = (case renderer opts of Some r \<Rightarrow> r | None \<Rightarrow> newRenderer opts)"
  by (simp add: getOpts_def)

text \<open>The image rule writes to the renderer: for a video link in the mode \<open>lite\<close> it sets
  the flag for the lightweight player.\<close>

lemma js_Nil: "js s = [] \<longleftrightarrow> s = []"
  by (simp add: js_def)

lemma image_lite:
  assumes "isYoutubeVideo src" and "ytEmbed this = YtLite"
  shows "snd (image e this src title alt) = this\<lparr>lightYTEmbedImport := True\<rparr>"
proof -
  from assms(1) obtain m where m: "regexExec youtubeRegex src = Some m"
    by (auto simp: isYoutubeVideo_def regexTest_def)
  show ?thesis
    using assms by (simp add: image_def youtubeLinkToIframe_def m Let_def js_Nil)
qed


text \<open>
  It fails for the renderer of the options too. The caller hands in a fresh renderer, in
  the mode \<open>lite\<close>, and the text is an image whose target is a video link: the image
  rule sets the renderer's flag for the lightweight player, and the caller's options show
  the flag set after the call.
\<close>

theorem render_writes_renderer:
  "map_option lightYTEmbedImport (renderer (noOptions\<lparr>renderer := Some (newRenderer noOptions)\<rparr>)) =
     Some False \<and>
   map_option lightYTEmbedImport
     (renderer
        (fst (snd (render imageEnv (js ''![](https://youtu.be/dQw4w9WgXcQ)'')
                     (noOptions\<lparr>renderer := Some (newRenderer noOptions)\<rparr>))))) =
     Some True"
proof -
  let ?r = "newRenderer noOptions"
  let ?opts = "noOptions\<lparr>renderer := Some ?r\<rparr>"
  have y: "isYoutubeVideo (js ''https://youtu.be/dQw4w9WgXcQ'')"
    unfolding isYoutubeVideo_def youtubeRegex_def videoIdChar_def regex_unfold
    by (simp add: regex_eval)
  have l: "ytEmbed ?r = YtLite" by (simp add: newRenderer_def noOptions_def)
  have p: "snd (imageParser e u i (js ''![](https://youtu.be/dQw4w9WgXcQ)'') options) =
             snd (image e (o_renderer options) (js ''https://youtu.be/dQw4w9WgXcQ'') None [])"
    for e u i options
    by (simp add: imageParser_def js_def Let_def)
  have m: "emojify imageEnv s = s" "markedParse imageEnv = imageParser sampleEnv" for s
    by (simp_all add: imageEnv_def sampleEnv_def)
  have o: "allowMath ?opts = None" "renderer ?opts = Some ?r"
    by (simp_all add: noOptions_def)
  have "snd (snd (render imageEnv (js ''![](https://youtu.be/dQw4w9WgXcQ)'') ?opts)) =
        ?r\<lparr>lightYTEmbedImport := True\<rparr>"
    by (simp add: render_renderer m o p getOpts_renderer image_lite[OF y l])
  then have "renderer (fst (snd (render imageEnv (js ''![](https://youtu.be/dQw4w9WgXcQ)'') ?opts))) =
        Some (?r\<lparr>lightYTEmbedImport := True\<rparr>)"
    by (simp add: render_leaves o)
  then show ?thesis by (simp add: o) (simp add: newRenderer_def)
qed


section \<open>URL resolution that fails\<close>

text \<open>
  C4: when \<open>new URL\<close> throws, neither rule throws. The link rule emits the anchor with
  the \<open>href\<close> it was given; the transformer for \<open>img\<close> and \<open>video\<close>, which resolves a
  non-empty \<open>src\<close> against a non-empty media base URL, returns the attributes without
  \<open>src\<close>.
\<close>

theorem link_and_media_resolution_failure:
  \<open>(newURL e href base = None \<and> r_baseUrl this = Some base \<and> \<not> r_noLinks this \<longrightarrow>
      link e this href title txt =
        (if startsWith href (js ''#'')
         then js ''<a href="'' @ href @ js ''"'' @ titleAttribute title @ js ''>'' @ txt @ js ''</a>''
         else js ''<a href="'' @ href @ js ''"'' @ titleAttribute title @
              js '' rel="noopener noreferrer">'' @ txt @ js ''</a>'')) \<and>
   (newURL e src mediaBase = None \<and> mediaBaseUrl opts = Some mediaBase \<and> mediaBase \<noteq> [] \<and>
    attribs (js ''src'') = Some src \<and> src \<noteq> [] \<longrightarrow>
      transformMedia e opts tagName attribs = (tagName, attribs(js ''src'' := None)))\<close>
  by (simp add: link_def transformMedia_def Let_def)

theorem link_and_media_resolution_failure_witness:
  \<open>(newURL sampleEnv (js ''page.html'') (js ''nonsense'') = None \<and>
    r_baseUrl (newRenderer (noOptions\<lparr>baseUrl := Some (js ''nonsense'')\<rparr>)) = Some (js ''nonsense'') \<and>
    \<not> r_noLinks (newRenderer (noOptions\<lparr>baseUrl := Some (js ''nonsense'')\<rparr>))) \<and>
   link sampleEnv (newRenderer (noOptions\<lparr>baseUrl := Some (js ''nonsense'')\<rparr>)) (js ''page.html'') None
     (js ''Page'') = js ''<a href="page.html" rel="noopener noreferrer">Page</a>'' \<and>
   (newURL sampleEnv (js ''pic.png'') (js ''nonsense'') = None \<and>
    mediaBaseUrl (noOptions\<lparr>mediaBaseUrl := Some (js ''nonsense'')\<rparr>) = Some (js ''nonsense'') \<and>
    js ''nonsense'' \<noteq> [] \<and>
    [js ''src'' \<mapsto> js ''pic.png'', js ''alt'' \<mapsto> js ''x''] (js ''src'') = Some (js ''pic.png'') \<and>
    js ''pic.png'' \<noteq> []) \<and>
   transformMedia sampleEnv (noOptions\<lparr>mediaBaseUrl := Some (js ''nonsense'')\<rparr>) (js ''img'')
     [js ''src'' \<mapsto> js ''pic.png'', js ''alt'' \<mapsto> js ''x''] =
     (js ''img'', [js ''alt'' \<mapsto> js ''x''])\<close>
proof -
  let ?r = "newRenderer (noOptions\<lparr>baseUrl := Some (js ''nonsense'')\<rparr>)"
  let ?o = "noOptions\<lparr>mediaBaseUrl := Some (js ''nonsense'')\<rparr>"
  let ?a = "[js ''src'' \<mapsto> js ''pic.png'', js ''alt'' \<mapsto> js ''x'']"
  have h1: "newURL sampleEnv (js ''page.html'') (js ''nonsense'') = None \<and>
            r_baseUrl ?r = Some (js ''nonsense'') \<and> \<not> r_noLinks ?r"
    by (simp add: sampleEnv_def newRenderer_def noOptions_def)
  have h2: "newURL sampleEnv (js ''pic.png'') (js ''nonsense'') = None \<and>
            mediaBaseUrl ?o = Some (js ''nonsense'') \<and> js ''nonsense'' \<noteq> [] \<and>
            ?a (js ''src'') = Some (js ''pic.png'') \<and> js ''pic.png'' \<noteq> []"
    by (simp add: sampleEnv_def noOptions_def js_def)
  from link_and_media_resolution_failure
         [of sampleEnv "js ''page.html''" "js ''nonsense''" ?r None "js ''Page''"
             "js ''pic.png''" "js ''nonsense''" ?o ?a "js ''img''"] h1 h2
  have \<open>link sampleEnv ?r (js ''page.html'') None (js ''Page'') =
          js ''<a href="page.html" rel="noopener noreferrer">Page</a>''\<close>
    and "transformMedia sampleEnv ?o (js ''img'') ?a = (js ''img'', ?a(js ''src'' := None))"
    by (simp_all add: titleAttribute_def js_def)
  moreover have "?a(js ''src'' := None) = [js ''alt'' \<mapsto> js ''x'']"
    by (rule ext) (simp add: js_def)
  ultimately show ?thesis using h1 h2 by simp
qed

section \<open>A video link in link mode\<close>

text \<open>
  C8: for an image whose target is recognised as a YouTube link, in the mode \<open>link\<close>,
  the rule emits an anchor around the title if there is a non-empty one, else around the
  alt text if it is not empty, else around \<^verbatim>\<open>Youtube video\<close>; it emits no player and
  leaves the renderer, and so its flag for the lightweight player, as it was.
\<close>

theorem image_youtube_link:
  assumes "isYoutubeVideo src" and "ytEmbed this = YtLink"
  shows \<open>image e this src title alt =
           (js ''<a href="'' @ src @ js ''">'' @
            (if truthy title then (case title of Some t \<Rightarrow> t | None \<Rightarrow> [])
             else if alt \<noteq> [] then alt else js ''Youtube video'') @
            js ''</a>'', this)\<close>
  using assms by (cases title) (simp_all add: image_def orElse_def)


theorem image_youtube_link_witness:
  \<open>isYoutubeVideo (js ''https://youtu.be/dQw4w9WgXcQ'') \<and>
   ytEmbed (newRenderer (noOptions\<lparr>youtubeHandling := Some YtLink\<rparr>)) = YtLink \<and>
   image sampleEnv (newRenderer (noOptions\<lparr>youtubeHandling := Some YtLink\<rparr>))
     (js ''https://youtu.be/dQw4w9WgXcQ'') None (js ''alt'') =
     (js ''<a href="https://youtu.be/dQw4w9WgXcQ">alt</a>'',
      newRenderer (noOptions\<lparr>youtubeHandling := Some YtLink\<rparr>))\<close>
proof -
  let ?r = "newRenderer (noOptions\<lparr>youtubeHandling := Some YtLink\<rparr>)"
  have y: "isYoutubeVideo (js ''https://youtu.be/dQw4w9WgXcQ'')"
    unfolding isYoutubeVideo_def youtubeRegex_def videoIdChar_def regex_unfold
    by (simp add: regex_eval)
  have l: "ytEmbed ?r = YtLink" by (simp add: newRenderer_def noOptions_def)
  from image_youtube_link[OF y l, of sampleEnv None "js ''alt''"] y l show ?thesis
    by (simp add: js_def)
qed

section \<open>The allow-list of classes\<close>

text \<open>Tags and attributes are added to the defaults: the caller's tags are put behind the
  default tags, and the caller's attributes for a tag behind the default ones for it.\<close>

lemma mergeInto_lookup:
  assumes "distinct (map fst customs)"
    and "\<And>tag. tag \<in> fst ` set customs \<Longrightarrow> tag \<in> set objectPrototypeKeys \<Longrightarrow> map_of merged tag \<noteq> None"
  shows "\<exists>result. mergeInto merged customs = Inr result \<and>
           (\<forall>tag. map_of result tag =
              (case map_of customs tag of
                 None \<Rightarrow> map_of merged tag
               | Some xs \<Rightarrow> Some ((case map_of merged tag of Some ys \<Rightarrow> ys | None \<Rightarrow> []) @ xs)))"
  using assms
proof (induction customs arbitrary: merged)
  case Nil
  show ?case by simp
next
  case (Cons kv customs)
  obtain k v where kv: "kv = (k, v)" by (cases kv)
  from Cons.prems(1) kv have d: "distinct (map fst customs)" and n: "map_of customs k = None"
    by (auto simp: map_of_eq_None_iff)
  from n have nk: "k \<notin> fst ` set customs" by (simp add: map_of_eq_None_iff)
  let ?m = "AList.update k ((case map_of merged k of Some ys \<Rightarrow> ys | None \<Rightarrow> []) @ v) merged"
  have step: "mergeInto merged (kv # customs) = mergeInto ?m customs"
    using Cons.prems(2)[of k] by (auto simp: kv split: option.splits)
  have "\<And>tag. tag \<in> fst ` set customs \<Longrightarrow> tag \<in> set objectPrototypeKeys \<Longrightarrow> map_of ?m tag \<noteq> None"
    using Cons.prems(2) nk by (auto simp: update_conv')
  from Cons.IH[OF d this] obtain result where r: "mergeInto ?m customs = Inr result"
    and l: "\<forall>tag. map_of result tag =
              (case map_of customs tag of
                 None \<Rightarrow> map_of ?m tag
               | Some xs \<Rightarrow> Some ((case map_of ?m tag of Some ys \<Rightarrow> ys | None \<Rightarrow> []) @ xs))"
    by blast
  from l n have "\<forall>tag. map_of result tag =
      (case map_of (kv # customs) tag of
         None \<Rightarrow> map_of merged tag
       | Some xs \<Rightarrow> Some ((case map_of merged tag of Some ys \<Rightarrow> ys | None \<Rightarrow> []) @ xs))"
    by (auto simp: kv update_conv' split: option.splits)
  with r step show ?case by simp
qed

lemma mergeAttributes_lookup:
  assumes "distinct (map fst customs)"
    and "\<And>tag. tag \<in> fst ` set customs \<Longrightarrow> tag \<in> set objectPrototypeKeys \<Longrightarrow> map_of defaults tag \<noteq> None"
  shows "\<exists>merged. mergeAttributes defaults customs = Inr merged \<and>
           (\<forall>tag. map_of merged tag =
              (case map_of customs tag of
                 None \<Rightarrow> map_of defaults tag
               | Some xs \<Rightarrow> Some ((case map_of defaults tag of Some ys \<Rightarrow> ys | None \<Rightarrow> []) @ xs)))"
  unfolding mergeAttributes_def using assms by (rule mergeInto_lookup)

text \<open>A tag of the caller's that names a member of \<open>Object.prototype\<close> and has no default
  list makes \<open>mergeAttributes\<close>, and so \<open>render\<close>, throw.\<close>

lemma mergeInto_throws:
  "tag \<in> fst ` set customs \<Longrightarrow> tag \<in> set objectPrototypeKeys \<Longrightarrow> map_of merged tag = None \<Longrightarrow>
   mergeInto merged customs = Inl TypeError"
proof (induction customs arbitrary: merged)
  case Nil
  then show ?case by simp
next
  case (Cons kv customs)
  obtain k v where kv: "kv = (k, v)" by (cases kv)
  show ?case
  proof (cases "k = tag")
    case True
    with Cons.prems show ?thesis by (simp add: kv)
  next
    case False
    with Cons.prems kv have t: "tag \<in> fst ` set customs" by auto
    have "mergeInto (AList.update k x merged) customs = Inl TypeError" for x
      using False Cons.prems by (intro Cons.IH[OF t]) (simp_all add: update_conv')
    then show ?thesis by (simp add: kv split: option.splits)
  qed
qed

lemma mergeAttributes_throws:
  "tag \<in> fst ` set customs \<Longrightarrow> tag \<in> set objectPrototypeKeys \<Longrightarrow> map_of defaults tag = None \<Longrightarrow>
   mergeAttributes defaults customs = Inl TypeError"
  unfolding mergeAttributes_def by (rule mergeInto_throws)

lemma sanitize_tags_and_attributes:
  "s_allowedTags (sanitizeConfig e opts merged) =
     Some (renderAllowedTags e opts @ (case allowedTags opts of Some ts \<Rightarrow> ts | None \<Rightarrow> [])) \<and>
   s_allowedAttributes (sanitizeConfig e opts merged) = Some merged"
  by (simp add: sanitizeConfig_def)

text \<open>
  C3 fails for classes: the caller's list for a tag takes the place of the default list
  for that tag (object spread), where \<open>mergeAttributes\<close> appends for attributes. With
  one class of the caller's for \<open>div\<close>, the default classes of \<open>div\<close> are gone from
  what the sanitizer is given, whatever the environment and the other options.
\<close>

theorem allowedClasses_replaced:
  "map_of (renderAllowedClasses e opts) (js ''div'') =
     Some (ClassesList (classNames
       [''highlight'', ''highlight-source-*'', ''notranslate'', ''markdown-alert'',
        ''markdown-alert-*'', ''markdown-code-title'', ''mermaid-code'', ''mermaid-container''])) \<and>
   (\<exists>classes.
      s_allowedClasses
        (sanitizeConfig e
           (opts\<lparr>allowedClasses := Some [(js ''div'', ClassesList [ClassName (js ''custom'')])]\<rparr>) merged)
        = Some classes \<and>
      map_of classes (js ''div'') = Some (ClassesList [ClassName (js ''custom'')]))"
  by (simp add: sanitizeConfig_def objSpread_def renderAllowedClasses_def update_conv')

section \<open>A block of math that fails to typeset\<close>

text \<open>
  C9 fails for a block match. The first pass leaves the block \<^verbatim>\<open>$$ \bad $$\<close> as it is
  when the typesetter throws; the second pass then finds \<^verbatim>\<open> $$\<close>, an inline match
  with an empty expression, at the closing delimiter and replaces it with what the
  typesetter returns for the empty expression.
\<close>

theorem mathify_failed_block:
  assumes "renderToString e ([92] @ js ''bad'') True = None"
    and "renderToString e [] False = Some html"
  shows "mathify e (js ''$$ '' @ [92] @ js ''bad $$'') = js ''$$ '' @ [92] @ js ''bad '' @ html"
  using assms
  unfolding mathify_def BLOCK_MATH_REGEXP_def INLINE_MATH_REGEXP_def regex_unfold
  by (simp add: regex_eval replaceAll.simps regexExec_def blockMath_def inlineMath_def trim_def js_def)

theorem mathify_failed_block_witness:
  \<open>(renderToString sampleEnv ([92] @ js ''bad'') True = None \<and>
    renderToString sampleEnv [] False = Some (js ''<span class="katex"></span>'')) \<and>
   mathify sampleEnv (js ''$$ '' @ [92] @ js ''bad $$'') =
     js ''$$ '' @ [92] @ js ''bad <span class="katex"></span>''\<close>
proof -
  have h: \<open>renderToString sampleEnv ([92] @ js ''bad'') True = None \<and>
    renderToString sampleEnv [] False = Some (js ''<span class="katex"></span>'')\<close>
    by (simp add: sampleEnv_def js_def)
  from mathify_failed_block[of sampleEnv \<open>js ''<span class="katex"></span>''\<close>] h show ?thesis
    by (simp add: js_def)
qed

section \<open>The marker that is cut out of a blockquote\<close>

text \<open>What does hold of the detection: of the markers that the lower case text includes,
  the one that is latest in the list is returned.\<close>

lemma fold_last_found:
  "fold (\<lambda>a r. if P a then Some a else r) xs init =
     (if filter P xs = [] then init else Some (last (filter P xs)))"
  by (induction xs rule: rev_induct) simp_all

lemma detectAlert_latest:
  "detectAlert e txt =
     (if filter (includesStr (toLowerCase e txt)) alerts_list = [] then None
      else Some (last (filter (includesStr (toLowerCase e txt)) alerts_list)))"
  unfolding detectAlert_def by (rule fold_last_found)

text \<open>
  C10 fails where lower case is longer than the text: the position of the marker is
  found in the lower case text and used in the text itself. After U+0130, whose lower
  case has two code units, the cut starts one code unit late: the opening bracket of
  \<^verbatim>\<open>[!TIP]\<close> stays and the space behind the marker goes.
\<close>

theorem blockquote_wrong_splice:
  assumes "toLowerCase e ([304] @ js ''[!TIP] [!note] x'') = [105, 775] @ js ''[!tip] [!note] x''"
    and "toUpperCase e (js ''t'') = js ''T''"
    and "toLowerCase e (js ''ip'') = js ''ip''"
    and "\<not> alertsEnabled this"
  shows "detectAlert e ([304] @ js ''[!TIP] [!note] x'') = Some (js ''[!tip]'') \<and>
         blockquote e this ([304] @ js ''[!TIP] [!note] x'') =
           js ''<p><b>Tip: </b></p>'' @ [304] @ js ''[[!note] x</p>''"
  using assms
  by (simp add: blockquote_def detectAlert_def alerts_list_def includesStr_def indexOf_def
      convertAlert_def slice_def sliceIndex_def sliceFrom_def cutStr_def substring_def
      substringFrom_def clampIndex_def trim_def isWhiteSpace_def js_def)

theorem blockquote_wrong_splice_witness:
  "(toLowerCase sampleEnv ([304] @ js ''[!TIP] [!note] x'') = [105, 775] @ js ''[!tip] [!note] x'' \<and>
    toUpperCase sampleEnv (js ''t'') = js ''T'' \<and>
    toLowerCase sampleEnv (js ''ip'') = js ''ip'' \<and>
    \<not> alertsEnabled (newRenderer (noOptions\<lparr>alerts := Some False\<rparr>))) \<and>
   detectAlert sampleEnv ([304] @ js ''[!TIP] [!note] x'') = Some (js ''[!tip]'') \<and>
   blockquote sampleEnv (newRenderer (noOptions\<lparr>alerts := Some False\<rparr>))
     ([304] @ js ''[!TIP] [!note] x'') =
     js ''<p><b>Tip: </b></p>'' @ [304] @ js ''[[!note] x</p>''"
proof -
  have h: "toLowerCase sampleEnv ([304] @ js ''[!TIP] [!note] x'') = [105, 775] @ js ''[!tip] [!note] x''"
    "toUpperCase sampleEnv (js ''t'') = js ''T''"
    "toLowerCase sampleEnv (js ''ip'') = js ''ip''"
    "\<not> alertsEnabled (newRenderer (noOptions\<lparr>alerts := Some False\<rparr>))"
    by (simp_all add: sampleEnv_def sampleLower_def sampleUpper_def js_def newRenderer_def noOptions_def)
  from blockquote_wrong_splice[OF h] h show ?thesis by blast
qed

end
